theory Spec2Isabelle
  imports Complex_Main "HOL-Library.Word"
begin

unbundle bit_operations_syntax

section \<open>Conventions of the embedding\<close>

text \<open>
  The decoder is written in C++. A \<^verbatim>\<open>Sample\<close> is a \<^verbatim>\<open>double\<close> and an
  \<^verbatim>\<open>IQSample\<close> a complex pair of floats; both are modelled by the real and complex
  numbers, so the theorems below speak about the arithmetic the code intends and not about
  the rounding of IEEE-754. The exception is the product that gives the length of the
  output buffer in \<^verbatim>\<open>main\<close>, which is rounded to a double explicitly.
  \<^verbatim>\<open>unsigned int\<close> is 32 bits wide and \<^verbatim>\<open>size_t\<close> is
  wider, so that \<^verbatim>\<open>unsigned int n = v.size()\<close> keeps the size modulo \<open>2 ^ 32\<close>.
  Member functions take the object as an argument and return the updated object together
  with what they write to their output parameters. A failed \<^verbatim>\<open>assert\<close> and an
  access the language leaves undefined (a store outside a vector, a write through a null
  stream, the conversion of a double outside the range of the integer type, an integer
  division by zero) are values of the type \<open>error\<close>.
\<close>

datatype error = AssertFailed | OutOfBounds | NullStream | OutOfRange | DivisionByZero

text \<open>Sequencing of steps that may fail.\<close>

definition bind_err :: "error + 'a \<Rightarrow> ('a \<Rightarrow> error + 'b) \<Rightarrow> error + 'b" where
  "bind_err r f = (case r of Inl e \<Rightarrow> Inl e | Inr x \<Rightarrow> f x)"

definition uint_of_size :: "nat \<Rightarrow> nat" where
  "uint_of_size k = k mod 2 ^ 32"

text \<open>Conversion of an unsigned 32-bit sum to \<^verbatim>\<open>int\<close>: two's complement wrap-around.\<close>

definition wrap_int32 :: "int \<Rightarrow> int" where
  "wrap_int32 x = (x + 2 ^ 31) mod 2 ^ 32 - 2 ^ 31"

text \<open>
  \<^verbatim>\<open>int(x)\<close> on a double: truncation towards zero. C++ defines the conversion when
  the truncated value fits the type; the function is the truncation for every real.
\<close>

definition trunc_int :: "real \<Rightarrow> int" where
  "trunc_int x = (if 0 \<le> x then \<lfloor>x\<rfloor> else \<lceil>x\<rceil>)"

section \<open>PilotPhaseLock (FmDecode.cpp)\<close>

record PpsEvent =
  pps_index :: nat
  sample_index :: nat
  block_position :: real

record PilotPhaseLock =
  m_minfreq :: real
  m_maxfreq :: real
  m_phasor_b0 :: real
  m_phasor_a1 :: real
  m_phasor_a2 :: real
  m_phasor_i1 :: real
  m_phasor_i2 :: real
  m_phasor_q1 :: real
  m_phasor_q2 :: real
  m_loopfilter_b0 :: real
  m_loopfilter_b1 :: real
  m_loopfilter_x1 :: real
  m_freq :: real
  m_phase :: real
  m_minsignal :: real
  m_pilot_level :: real
  m_lock_delay :: int
  m_lock_cnt :: int
  m_pilot_periods :: int
  m_pps_cnt :: nat
  m_sample_cnt :: nat
  m_pps_events :: "PpsEvent list"

text \<open>
  Modelled from the spec: the class declaration of the phase-locked loop (FmDecode.h) is
  not among the sources. The constant \<^verbatim>\<open>pilot_frequency\<close> is the number of pilot
  periods between two PPS events, 19000 in section 4.7 of the specification. The lock
  counter and the lock delay are \<^verbatim>\<open>int\<close>s (the constructor stores \<^verbatim>\<open>int(20.0 / bandwidth)\<close>);
  the PPS and sample counters only count upwards and are modelled as natural numbers.
\<close>

definition pilot_frequency :: int where
  "pilot_frequency = 19000"

text \<open>The constructor, lines 32 to 88.\<close>

definition PilotPhaseLock_init :: "real \<Rightarrow> real \<Rightarrow> real \<Rightarrow> PilotPhaseLock" where
  "PilotPhaseLock_init freq bandwidth minsignal =
     (let p1 = exp (- 1.146 * bandwidth * 2 * pi);
          p2 = exp (- 5.331 * bandwidth * 2 * pi);
          a1 = - p1 - p2;
          a2 = p1 * p2;
          q1 = exp (- 0.1153 * bandwidth * 2 * pi);
          b0 = 0.62 * bandwidth * 2 * pi
      in \<lparr> m_minfreq = (freq - bandwidth) * 2 * pi,
           m_maxfreq = (freq + bandwidth) * 2 * pi,
           m_phasor_b0 = 1 + a1 + a2,
           m_phasor_a1 = a1,
           m_phasor_a2 = a2,
           m_phasor_i1 = 0,
           m_phasor_i2 = 0,
           m_phasor_q1 = 0,
           m_phasor_q2 = 0,
           m_loopfilter_b0 = b0,
           m_loopfilter_b1 = - b0 * q1,
           m_loopfilter_x1 = 0,
           m_freq = freq * 2 * pi,
           m_phase = 0,
           m_minsignal = minsignal,
           m_pilot_level = 0,
           m_lock_delay = trunc_int (20 / bandwidth),
           m_lock_cnt = 0,
           m_pilot_periods = 0,
           m_pps_cnt = 0,
           m_sample_cnt = 0,
           m_pps_events = [] \<rparr>)"

definition locked :: "PilotPhaseLock \<Rightarrow> bool" where
  "locked s = (m_lock_cnt s \<ge> m_lock_delay s)"

text \<open>
  The body of \<^verbatim>\<open>if (m_phase > 2.0 * M_PI)\<close>, lines 158 to 172: the phase wraps, a pilot
  period is counted, and every \<^verbatim>\<open>pilot_frequency\<close> periods a PPS event is recorded
  when the loop was locked at the start of the block.
\<close>

definition pll_phase_wrap :: "bool \<Rightarrow> nat \<Rightarrow> nat \<Rightarrow> PilotPhaseLock \<Rightarrow> PilotPhaseLock" where
  "pll_phase_wrap was_locked n i s =
     (let s1 = s\<lparr> m_phase := m_phase s - 2 * pi,
                  m_pilot_periods := m_pilot_periods s + 1 \<rparr>
      in if m_pilot_periods s1 = pilot_frequency then
           (let s2 = s1\<lparr> m_pilot_periods := 0 \<rparr>
            in if was_locked then
                 s2\<lparr> m_pps_events := m_pps_events s2 @
                        [\<lparr> pps_index = m_pps_cnt s2,
                           sample_index = m_sample_cnt s2 + i,
                           block_position = real i / real n \<rparr>],
                     m_pps_cnt := m_pps_cnt s2 + 1 \<rparr>
               else s2)
         else s1)"

text \<open>
  The double-frequency output sample, lines 110 to 123, computed from the phase before the
  update.
\<close>

definition pll_output :: "bool \<Rightarrow> real \<Rightarrow> real" where
  "pll_output pilot_shift phase =
     (let psin = sin phase;
          pcos = cos phase
      in if pilot_shift then 2 * pcos * pcos - 1 else 2 * psin * pcos)"

text \<open>
  Lines 125 to 156: mixing with the local oscillator, the low-pass filter on I and Q, the
  pilot level, the loop filter, the clamp of the frequency and the phase increment.
  \<^verbatim>\<open>Utility::fast_atan2f\<close> is not among the sources and is the parameter \<open>atan2f\<close>.
\<close>

definition pll_filter :: "(real \<Rightarrow> real \<Rightarrow> real) \<Rightarrow> real \<Rightarrow> PilotPhaseLock \<Rightarrow> PilotPhaseLock" where
  "pll_filter atan2f x s =
     (let psin = sin (m_phase s);
          pcos = cos (m_phase s);
          phasor_i = m_phasor_b0 s * (psin * x) - m_phasor_a1 s * m_phasor_i1 s
                       - m_phasor_a2 s * m_phasor_i2 s;
          phasor_q = m_phasor_b0 s * (pcos * x) - m_phasor_a1 s * m_phasor_q1 s
                       - m_phasor_a2 s * m_phasor_q2 s;
          phase_err = atan2f phasor_q phasor_i;
          freq = max (m_minfreq s)
                   (min (m_maxfreq s)
                      (m_freq s + (m_loopfilter_b0 s * phase_err
                                    + m_loopfilter_b1 s * m_loopfilter_x1 s)))
      in s\<lparr> m_phasor_i2 := m_phasor_i1 s,
             m_phasor_i1 := phasor_i,
             m_phasor_q2 := m_phasor_q1 s,
             m_phasor_q1 := phasor_q,
             m_pilot_level := min (m_pilot_level s) phasor_i,
             m_loopfilter_x1 := phase_err,
             m_freq := freq,
             m_phase := m_phase s + freq \<rparr>)"

text \<open>
  One turn of the sample loop, lines 108 to 174. The result is the new state and the output
  sample \<^verbatim>\<open>samples_out[i]\<close>.
\<close>

definition pll_sample ::
  "(real \<Rightarrow> real \<Rightarrow> real) \<Rightarrow> bool \<Rightarrow> bool \<Rightarrow> nat \<Rightarrow> nat \<Rightarrow> real \<Rightarrow> PilotPhaseLock
     \<Rightarrow> PilotPhaseLock \<times> real" where
  "pll_sample atan2f pilot_shift was_locked n i x s =
     (let s1 = pll_filter atan2f x s
      in (if m_phase s1 > 2 * pi then pll_phase_wrap was_locked n i s1 else s1,
          pll_output pilot_shift (m_phase s)))"

text \<open>The loop \<^verbatim>\<open>for (unsigned int i = 0; i < n; i++)\<close> over the samples from index \<open>i\<close> on.\<close>

fun pll_loop ::
  "(real \<Rightarrow> real \<Rightarrow> real) \<Rightarrow> bool \<Rightarrow> bool \<Rightarrow> nat \<Rightarrow> nat \<Rightarrow> real list \<Rightarrow> PilotPhaseLock
     \<Rightarrow> PilotPhaseLock \<times> real list" where
  "pll_loop atan2f pilot_shift was_locked n i [] s = (s, [])"
| "pll_loop atan2f pilot_shift was_locked n i (x # xs) s =
     (let (s1, y) = pll_sample atan2f pilot_shift was_locked n i x s;
          (s2, ys) = pll_loop atan2f pilot_shift was_locked n (Suc i) xs s1
      in (s2, y # ys))"

text \<open>\<^verbatim>\<open>Update lock status\<close>, lines 176 to 183.\<close>

definition pll_update_lock :: "nat \<Rightarrow> PilotPhaseLock \<Rightarrow> PilotPhaseLock" where
  "pll_update_lock n s =
     (if 2 * m_pilot_level s > m_minsignal s then
        (if m_lock_cnt s < m_lock_delay s
         then s\<lparr> m_lock_cnt := wrap_int32 (m_lock_cnt s + int n) \<rparr>
         else s)
      else s\<lparr> m_lock_cnt := 0 \<rparr>)"

text \<open>\<^verbatim>\<open>Drop PPS events when pilot not locked\<close>, lines 185 to 190.\<close>

definition pll_drop_pps :: "PilotPhaseLock \<Rightarrow> PilotPhaseLock" where
  "pll_drop_pps s =
     (if m_lock_cnt s < m_lock_delay s
      then s\<lparr> m_pilot_periods := 0, m_pps_cnt := 0, m_pps_events := [] \<rparr>
      else s)"

text \<open>
  \<^verbatim>\<open>PilotPhaseLock::process\<close>, lines 91 to 194. The second component is
  \<^verbatim>\<open>samples_out\<close>, resized to \<open>n\<close> and filled by the loop.
\<close>

definition PilotPhaseLock_process ::
  "(real \<Rightarrow> real \<Rightarrow> real) \<Rightarrow> PilotPhaseLock \<Rightarrow> real list \<Rightarrow> bool
     \<Rightarrow> PilotPhaseLock \<times> real list" where
  "PilotPhaseLock_process atan2f s samples_in pilot_shift =
     (let n = uint_of_size (length samples_in);
          was_locked = (m_lock_cnt s \<ge> m_lock_delay s);
          s0 = s\<lparr> m_pps_events := [] \<rparr>
      in if n > 0 then
           (let (s1, out) = pll_loop atan2f pilot_shift was_locked n 0
                              (take n samples_in) (s0\<lparr> m_pilot_level := 1000 \<rparr>);
                s2 = pll_drop_pps (pll_update_lock n s1)
            in (s2\<lparr> m_sample_cnt := m_sample_cnt s2 + n \<rparr>, out))
         else (s0, []))"

text \<open>A sequence of blocks, each with the pilot-shift flag of its call.\<close>

fun pll_run ::
  "(real \<Rightarrow> real \<Rightarrow> real) \<Rightarrow> PilotPhaseLock \<Rightarrow> (real list \<times> bool) list \<Rightarrow> PilotPhaseLock" where
  "pll_run atan2f s [] = s"
| "pll_run atan2f s (b # bs) =
     pll_run atan2f (fst (PilotPhaseLock_process atan2f s (fst b) (snd b))) bs"

text \<open>
  The state after the first \<open>k\<close> turns of the sample loop of a call of
  \<^verbatim>\<open>process\<close> on \<open>samples_in\<close>.
\<close>

definition pll_after_samples ::
  "(real \<Rightarrow> real \<Rightarrow> real) \<Rightarrow> PilotPhaseLock \<Rightarrow> real list \<Rightarrow> bool \<Rightarrow> nat \<Rightarrow> PilotPhaseLock" where
  "pll_after_samples atan2f s samples_in pilot_shift k =
     (let n = uint_of_size (length samples_in)
      in fst (pll_loop atan2f pilot_shift (m_lock_cnt s \<ge> m_lock_delay s) n 0
                (take k (take n samples_in))
                (s\<lparr> m_pps_events := [], m_pilot_level := 1000 \<rparr>)))"

text \<open>The pilot-level condition of line 177, read on the state a block leaves behind.\<close>

definition pilot_above_threshold :: "PilotPhaseLock \<Rightarrow> bool" where
  "pilot_above_threshold s = (2 * m_pilot_level s > m_minsignal s)"

text \<open>
  The number of samples of the latest uninterrupted run of blocks on which the pilot-level
  condition held, counted along a sequence of calls; \<open>r\<close> is the run before the first
  block. An empty block takes the early return of line 105 and leaves the run as it is.
\<close>

fun pll_good_run ::
  "(real \<Rightarrow> real \<Rightarrow> real) \<Rightarrow> PilotPhaseLock \<Rightarrow> (real list \<times> bool) list \<Rightarrow> nat \<Rightarrow> nat" where
  "pll_good_run atan2f s [] r = r"
| "pll_good_run atan2f s (b # bs) r =
     (let s1 = fst (PilotPhaseLock_process atan2f s (fst b) (snd b));
          n = uint_of_size (length (fst b))
      in pll_good_run atan2f s1 bs
           (if n = 0 then r else if pilot_above_threshold s1 then r + n else 0))"

text \<open>Predicates used as invariants of the loop.\<close>

definition freq_in_range :: "PilotPhaseLock \<Rightarrow> bool" where
  "freq_in_range s = (m_minfreq s \<le> m_freq s \<and> m_freq s \<le> m_maxfreq s)"

definition lock_cnt_bounded :: "PilotPhaseLock \<Rightarrow> nat \<Rightarrow> bool" where
  "lock_cnt_bounded s r = (- (2 ^ 31) \<le> m_lock_cnt s \<and> m_lock_cnt s \<le> int r)"

definition pps_in_block :: "nat \<Rightarrow> PpsEvent \<Rightarrow> bool" where
  "pps_in_block n ev = (\<exists>i < n. block_position ev = real i / real n)"

definition pps_counters_clear :: "PilotPhaseLock \<Rightarrow> bool" where
  "pps_counters_clear s = (\<not> locked s \<longrightarrow> m_pilot_periods s = 0 \<and> m_pps_cnt s = 0)"

definition phasor_i_zero :: "PilotPhaseLock \<Rightarrow> bool" where
  "phasor_i_zero s = (m_phasor_i1 s = 0 \<and> m_phasor_i2 s = 0)"

text \<open>
  A state in which the loop is locked and one pilot period is missing to the next PPS
  event; it serves as a concrete input.
\<close>

definition pps_example_state :: PilotPhaseLock where
  "pps_example_state =
     (PilotPhaseLock_init 1 1 (- 1))\<lparr> m_phase := 1, m_lock_cnt := 20, m_pilot_periods := 18999 \<rparr>"

section \<open>FmDecoder (FmDecode.cpp)\<close>

subsection \<open>Channel matrixing\<close>

text \<open>\<^verbatim>\<open>std::vector::resize\<close>: the first \<open>k\<close> elements are kept, new ones are zero.\<close>

definition resize :: "nat \<Rightarrow> real list \<Rightarrow> real list" where
  "resize k v = take k v @ replicate (k - length v) 0"

text \<open>
  The loops of \<^verbatim>\<open>mono_to_left_right\<close>, \<^verbatim>\<open>stereo_to_left_right\<close> and
  \<^verbatim>\<open>zero_to_left_right\<close> store a left and a right sample at \<^verbatim>\<open>audio[2 * i]\<close> and
  \<^verbatim>\<open>audio[2 * i + 1]\<close>, the indices computed in \<^verbatim>\<open>unsigned int\<close>. A store outside
  the vector is undefined in C++ and is the error \<open>OutOfBounds\<close> here.
\<close>

fun lr_fill :: "(nat \<Rightarrow> real \<times> real) \<Rightarrow> nat list \<Rightarrow> real list \<Rightarrow> error + real list" where
  "lr_fill f [] audio = Inr audio"
| "lr_fill f (i # is) audio =
     (let l = uint_of_size (2 * i);
          r = uint_of_size (2 * i + 1)
      in if l < length audio \<and> r < length audio
         then lr_fill f is (audio[l := fst (f i), r := snd (f i)])
         else Inl OutOfBounds)"

text \<open>\<^verbatim>\<open>FmDecoder::mono_to_left_right\<close>, lines 414 to 424.\<close>

definition mono_to_left_right :: "real list \<Rightarrow> real list \<Rightarrow> error + real list" where
  "mono_to_left_right samples_mono audio =
     (let n = uint_of_size (length samples_mono)
      in lr_fill (\<lambda>i. let m = samples_mono ! i in (m, m)) [0..<n]
           (resize (uint_of_size (2 * n)) audio))"

text \<open>\<^verbatim>\<open>FmDecoder::stereo_to_left_right\<close>, lines 427 to 442.\<close>

definition stereo_to_left_right :: "real list \<Rightarrow> real list \<Rightarrow> real list \<Rightarrow> error + real list" where
  "stereo_to_left_right samples_mono samples_stereo audio =
     (let n = uint_of_size (length samples_mono)
      in if n \<noteq> length samples_stereo then Inl AssertFailed
         else lr_fill (\<lambda>i. let m = samples_mono ! i;
                              s = 1.017 * samples_stereo ! i
                          in (m + s, m - s)) [0..<n]
                (resize (uint_of_size (2 * n)) audio))"

text \<open>\<^verbatim>\<open>FmDecoder::zero_to_left_right\<close>, lines 446 to 455.\<close>

definition zero_to_left_right :: "real list \<Rightarrow> real list \<Rightarrow> error + real list" where
  "zero_to_left_right samples_mono audio =
     (let n = uint_of_size (length samples_mono)
      in lr_fill (\<lambda>i. (0, 0)) [0..<n] (resize (uint_of_size (2 * n)) audio))"

text \<open>\<^verbatim>\<open>FmDecoder::demod_stereo\<close>, lines 400 to 411.\<close>

definition demod_stereo :: "real list \<Rightarrow> real list \<Rightarrow> error + real list" where
  "demod_stereo samples_baseband samples_rawstereo =
     (let n = uint_of_size (length samples_baseband)
      in if n \<noteq> length samples_rawstereo then Inl AssertFailed
         else Inr (map (\<lambda>i. samples_rawstereo ! i * (2 * samples_baseband ! i)) [0..<n]))"

subsection \<open>The components of the decoder\<close>

text \<open>
  The classes the decoder is assembled from (\<^verbatim>\<open>IfAgc\<close>, \<^verbatim>\<open>MultipathFilter\<close>,
  \<^verbatim>\<open>PhaseDiscriminator\<close>, \<^verbatim>\<open>AudioResampler\<close>, \<^verbatim>\<open>LowPassFilterFirAudio\<close>,
  \<^verbatim>\<open>HighPassFilterIir\<close>, \<^verbatim>\<open>LowPassFilterRC\<close>), the functions of
  \<^verbatim>\<open>Utility\<close> and the constants of the class declarations are not among the sources.
  They are parameters: a type for the state of each class, and a record of the constants,
  the constructors and the member functions that \<^verbatim>\<open>FmDecoder\<close> calls. A
  \<^verbatim>\<open>process(in, out)\<close> returns the new state and the contents of \<^verbatim>\<open>out\<close>. The error
  of the multipath filter is \<open>None\<close> when \<^verbatim>\<open>std::isfinite\<close> rejects it.
\<close>

record ('agc, 'mf, 'pd, 'rs, 'fir, 'hp, 'rc) fm_ops =
  sample_rate_pcm :: real
  freq_dev :: real
  pilot_freq :: real
  if_target_level :: real
  pilotcut_coeff :: "real list"
  new_ifagc :: "real \<Rightarrow> real \<Rightarrow> real \<Rightarrow> real \<Rightarrow> 'agc"
  new_multipathfilter :: "nat \<Rightarrow> 'mf"
  new_phasedisc :: "real \<Rightarrow> 'pd"
  new_audioresampler :: "real \<Rightarrow> real \<Rightarrow> 'rs"
  new_pilotcut :: "real list \<Rightarrow> 'fir"
  new_dcblock :: "real \<Rightarrow> 'hp"
  new_deemph :: "real \<Rightarrow> 'rc"
  rms_level_approx :: "complex list \<Rightarrow> real"
  samples_mean_rms :: "real list \<Rightarrow> real \<times> real"
  fast_atan2f :: "real \<Rightarrow> real \<Rightarrow> real"
  ifagc_process :: "'agc \<Rightarrow> complex list \<Rightarrow> 'agc \<times> complex list"
  mf_process :: "'mf \<Rightarrow> complex list \<Rightarrow> 'mf \<times> complex list"
  mf_get_error :: "'mf \<Rightarrow> real option"
  mf_get_reference_level :: "'mf \<Rightarrow> real"
  mf_initialize_coefficients :: "'mf \<Rightarrow> 'mf"
  phasedisc_process :: "'pd \<Rightarrow> complex list \<Rightarrow> 'pd \<times> real list"
  resampler_process :: "'rs \<Rightarrow> real list \<Rightarrow> 'rs \<times> real list"
  pilotcut_process :: "'fir \<Rightarrow> real list \<Rightarrow> 'fir \<times> real list"
  dcblock_process_inplace :: "'hp \<Rightarrow> real list \<Rightarrow> 'hp \<times> real list"
  deemph_process_inplace :: "'rc \<Rightarrow> real list \<Rightarrow> 'rc \<times> real list"

text \<open>The members of \<^verbatim>\<open>FmDecoder\<close> that the constructor and \<^verbatim>\<open>process\<close> name.\<close>

record ('agc, 'mf, 'pd, 'rs, 'fir, 'hp, 'rc) FmDecoder =
  m_sample_rate_fmdemod :: real
  m_pilot_shift :: bool
  m_enable_multipath_filter :: bool
  m_skip_multipath_filter :: bool
  m_wait_multipath_blocks :: nat
  m_multipath_stages :: nat
  m_stereo_enabled :: bool
  m_stereo_detected :: bool
  m_baseband_mean :: real
  m_baseband_level :: real
  m_if_rms :: real
  m_audioresampler_mono :: 'rs
  m_audioresampler_stereo :: 'rs
  m_pilotcut_mono :: 'fir
  m_pilotcut_stereo :: 'fir
  m_phasedisc :: 'pd
  m_pilotpll :: PilotPhaseLock
  m_dcblock_mono :: 'hp
  m_dcblock_stereo :: 'hp
  m_deemph_mono :: 'rc
  m_deemph_stereo :: 'rc
  m_ifagc :: 'agc
  m_multipathfilter :: 'mf
  m_samples_in_after_agc :: "complex list"
  m_samples_in_filtered :: "complex list"
  m_buf_decoded :: "real list"
  m_buf_baseband :: "real list"
  m_buf_rawstereo :: "real list"
  m_buf_stereo_firstout :: "real list"
  m_buf_mono_firstout :: "real list"
  m_buf_mono :: "real list"
  m_buf_stereo :: "real list"


subsection \<open>The stages of \<^verbatim>\<open>FmDecoder::process\<close>\<close>

text \<open>
  Lines 266 to 270: the IF level and the IF AGC.
\<close>

definition fm_agc_stage ::
  "('agc, 'mf, 'pd, 'rs, 'fir, 'hp, 'rc) fm_ops
     \<Rightarrow> ('agc, 'mf, 'pd, 'rs, 'fir, 'hp, 'rc) FmDecoder \<Rightarrow> complex list
     \<Rightarrow> ('agc, 'mf, 'pd, 'rs, 'fir, 'hp, 'rc) FmDecoder" where
  "fm_agc_stage ops d samples_in =
     (let (agc, after_agc) = ifagc_process ops (m_ifagc d) samples_in
      in d\<lparr> m_if_rms := rms_level_approx ops samples_in,
             m_ifagc := agc,
             m_samples_in_after_agc := after_agc \<rparr>)"

text \<open>
  \<^verbatim>\<open>m_samples_in_filtered = std::move(m_samples_in_after_agc)\<close>: the source of the move
  is left empty.
\<close>

definition fm_bypass_multipath ::
  "('agc, 'mf, 'pd, 'rs, 'fir, 'hp, 'rc) FmDecoder
     \<Rightarrow> ('agc, 'mf, 'pd, 'rs, 'fir, 'hp, 'rc) FmDecoder" where
  "fm_bypass_multipath d =
     d\<lparr> m_samples_in_filtered := m_samples_in_after_agc d,
        m_samples_in_after_agc := [] \<rparr>"

text \<open>Lines 278 to 304: the multipath filter, bypassed during the first 100 blocks.\<close>

definition fm_multipath_stage ::
  "('agc, 'mf, 'pd, 'rs, 'fir, 'hp, 'rc) fm_ops
     \<Rightarrow> ('agc, 'mf, 'pd, 'rs, 'fir, 'hp, 'rc) FmDecoder
     \<Rightarrow> ('agc, 'mf, 'pd, 'rs, 'fir, 'hp, 'rc) FmDecoder" where
  "fm_multipath_stage ops d =
     (if m_wait_multipath_blocks d > 0 then
        fm_bypass_multipath (d\<lparr> m_wait_multipath_blocks := m_wait_multipath_blocks d - 1 \<rparr>)
      else if m_enable_multipath_filter d \<and> \<not> m_skip_multipath_filter d then
        (let (mf, filtered) = mf_process ops (m_multipathfilter d) (m_samples_in_after_agc d);
             d1 = d\<lparr> m_multipathfilter := mf, m_samples_in_filtered := filtered \<rparr>;
             abnormal_error = (mf_get_error ops mf = None);
             mf_reference_level = mf_get_reference_level ops mf;
             reference_level_error = (\<bar>mf_reference_level\<bar> < 0.01)
         in if \<not> m_skip_multipath_filter d1 \<and> (abnormal_error \<or> reference_level_error)
            then fm_bypass_multipath
                   (d1\<lparr> m_multipathfilter := mf_initialize_coefficients ops mf \<rparr>)
            else d1)
      else fm_bypass_multipath d)"

text \<open>Line 307: the phase discriminator.\<close>

definition fm_discriminator_stage ::
  "('agc, 'mf, 'pd, 'rs, 'fir, 'hp, 'rc) fm_ops
     \<Rightarrow> ('agc, 'mf, 'pd, 'rs, 'fir, 'hp, 'rc) FmDecoder
     \<Rightarrow> ('agc, 'mf, 'pd, 'rs, 'fir, 'hp, 'rc) FmDecoder" where
  "fm_discriminator_stage ops d =
     (let (pd, decoded) = phasedisc_process ops (m_phasedisc d) (m_samples_in_filtered d)
      in d\<lparr> m_phasedisc := pd, m_buf_decoded := decoded \<rparr>)"

text \<open>Lines 317 to 326: the baseband buffer and the baseband level.\<close>

definition fm_baseband_stage ::
  "('agc, 'mf, 'pd, 'rs, 'fir, 'hp, 'rc) fm_ops
     \<Rightarrow> ('agc, 'mf, 'pd, 'rs, 'fir, 'hp, 'rc) FmDecoder
     \<Rightarrow> ('agc, 'mf, 'pd, 'rs, 'fir, 'hp, 'rc) FmDecoder" where
  "fm_baseband_stage ops d =
     (let (baseband_mean, baseband_rms) = samples_mean_rms ops (m_buf_decoded d)
      in d\<lparr> m_buf_baseband := m_buf_decoded d,
             m_baseband_mean := 0.95 * m_baseband_mean d + 0.05 * baseband_mean,
             m_baseband_level := 0.95 * m_baseband_level d + 0.05 * baseband_rms \<rparr>)"

text \<open>
  Lines 330 to 353, the body of \<^verbatim>\<open>if (m_stereo_enabled)\<close>: the pilot loop, the
  stereo-detected flag, the demodulation of the L-R signal, its deemphasis and its
  resampler.
\<close>

definition fm_stereo_stage ::
  "('agc, 'mf, 'pd, 'rs, 'fir, 'hp, 'rc) fm_ops
     \<Rightarrow> ('agc, 'mf, 'pd, 'rs, 'fir, 'hp, 'rc) FmDecoder
     \<Rightarrow> error + ('agc, 'mf, 'pd, 'rs, 'fir, 'hp, 'rc) FmDecoder" where
  "fm_stereo_stage ops d =
     (let (pll, rawstereo) = PilotPhaseLock_process (fast_atan2f ops) (m_pilotpll d)
                               (m_buf_baseband d) (m_pilot_shift d);
          d1 = d\<lparr> m_pilotpll := pll, m_buf_rawstereo := rawstereo,
                  m_stereo_detected := True \<rparr>
      in bind_err (demod_stereo (m_buf_baseband d1) (m_buf_rawstereo d1)) (\<lambda>rawstereo1.
           let d2 = d1\<lparr> m_buf_rawstereo := rawstereo1 \<rparr>;
               d3 = (if \<not> m_pilot_shift d2 then
                       (let (rc, buf) = deemph_process_inplace ops (m_deemph_stereo d2)
                                          (m_buf_rawstereo d2)
                        in d2\<lparr> m_deemph_stereo := rc, m_buf_rawstereo := buf \<rparr>)
                     else d2);
               (rs, firstout) = resampler_process ops (m_audioresampler_stereo d3)
                                  (m_buf_rawstereo d3)
           in Inr (d3\<lparr> m_audioresampler_stereo := rs, m_buf_stereo_firstout := firstout \<rparr>)))"

text \<open>Lines 355 to 359: deemphasis and resampling of the mono signal.\<close>

definition fm_mono_stage ::
  "('agc, 'mf, 'pd, 'rs, 'fir, 'hp, 'rc) fm_ops
     \<Rightarrow> ('agc, 'mf, 'pd, 'rs, 'fir, 'hp, 'rc) FmDecoder
     \<Rightarrow> ('agc, 'mf, 'pd, 'rs, 'fir, 'hp, 'rc) FmDecoder" where
  "fm_mono_stage ops d =
     (let (rc, baseband) = deemph_process_inplace ops (m_deemph_mono d) (m_buf_baseband d);
          d1 = d\<lparr> m_deemph_mono := rc, m_buf_baseband := baseband \<rparr>;
          (rs, firstout) = resampler_process ops (m_audioresampler_mono d1) (m_buf_baseband d1)
      in d1\<lparr> m_audioresampler_mono := rs, m_buf_mono_firstout := firstout \<rparr>)"

text \<open>Lines 365 to 396: the pilot-cut and DC filters and the choice of the output.\<close>

definition fm_output_stage ::
  "('agc, 'mf, 'pd, 'rs, 'fir, 'hp, 'rc) fm_ops
     \<Rightarrow> ('agc, 'mf, 'pd, 'rs, 'fir, 'hp, 'rc) FmDecoder \<Rightarrow> real list
     \<Rightarrow> error + (('agc, 'mf, 'pd, 'rs, 'fir, 'hp, 'rc) FmDecoder \<times> real list)" where
  "fm_output_stage ops d audio =
     (let (fir, mono) = pilotcut_process ops (m_pilotcut_mono d) (m_buf_mono_firstout d);
          (hp, mono1) = dcblock_process_inplace ops (m_dcblock_mono d) mono;
          d1 = d\<lparr> m_pilotcut_mono := fir, m_dcblock_mono := hp, m_buf_mono := mono1 \<rparr>
      in if m_stereo_enabled d1 then
           (let (firs, stereo) = pilotcut_process ops (m_pilotcut_stereo d1)
                                   (m_buf_stereo_firstout d1);
                (hps, stereo1) = dcblock_process_inplace ops (m_dcblock_stereo d1) stereo;
                d2 = d1\<lparr> m_pilotcut_stereo := firs, m_dcblock_stereo := hps,
                        m_buf_stereo := stereo1 \<rparr>
            in bind_err
                 (if m_stereo_detected d2 then
                    (if m_pilot_shift d2 then mono_to_left_right (m_buf_stereo d2) audio
                     else stereo_to_left_right (m_buf_mono d2) (m_buf_stereo d2) audio)
                  else
                    (if m_pilot_shift d2 then zero_to_left_right (m_buf_stereo d2) audio
                     else mono_to_left_right (m_buf_mono d2) audio))
                 (\<lambda>audio1. Inr (d2, audio1)))
         else Inr (d1\<lparr> m_buf_mono := [] \<rparr>, m_buf_mono d1))"

text \<open>
  \<^verbatim>\<open>FmDecoder::process\<close>, lines 257 to 397. \<open>audio\<close> is the vector the caller passes;
  the result is the decoder and the contents of that vector at the return.
\<close>

definition FmDecoder_process ::
  "('agc, 'mf, 'pd, 'rs, 'fir, 'hp, 'rc) fm_ops
     \<Rightarrow> ('agc, 'mf, 'pd, 'rs, 'fir, 'hp, 'rc) FmDecoder \<Rightarrow> complex list \<Rightarrow> real list
     \<Rightarrow> error + (('agc, 'mf, 'pd, 'rs, 'fir, 'hp, 'rc) FmDecoder \<times> real list)" where
  "FmDecoder_process ops d samples_in audio =
     (if length samples_in = 0 then Inr (d, resize 0 audio)
      else
        (let d1 = fm_discriminator_stage ops
                    (fm_multipath_stage ops (fm_agc_stage ops d samples_in))
         in if length (m_buf_decoded d1) = 0 then Inr (d1, resize 0 audio)
            else
              (let d2 = fm_baseband_stage ops d1
               in bind_err (if m_stereo_enabled d2 then fm_stereo_stage ops d2 else Inr d2)
                    (\<lambda>d3.
                       let d4 = fm_mono_stage ops d3
                       in if length (m_buf_mono_firstout d4) = 0
                          then Inr (d4, resize 0 audio)
                          else fm_output_stage ops d4 audio))))"




section \<open>AudioOutput (AudioOutput.cpp)\<close>

subsection \<open>Encoding samples as signed 16-bit integers\<close>

text \<open>
  \<^verbatim>\<open>lrint\<close> in the default rounding mode: the nearest integer, the even one of two
  that are equally near.
\<close>

definition lrint :: "real \<Rightarrow> int" where
  "lrint x =
     (let f = \<lfloor>x\<rfloor>;
          d = x - of_int f
      in if d < 1 / 2 then f
         else if d > 1 / 2 then f + 1
         else if even f then f else f + 1)"

text \<open>
  Lines 55 to 57: the \<^verbatim>\<open>long\<close> becomes an \<^verbatim>\<open>unsigned long\<close> (64 bits), whose two low
  bytes are stored, the low one first.
\<close>

definition int16_bytes :: "int \<Rightarrow> 8 word list" where
  "int16_bytes v =
     (let u = (word_of_int v :: 64 word)
      in [ucast (u AND 0xff), ucast (drop_bit 8 u AND 0xff)])"

text \<open>The body of the loop of \<^verbatim>\<open>samplesToInt16\<close>, lines 50 to 57, for one sample.\<close>

definition sample_to_int16 :: "real \<Rightarrow> 8 word list" where
  "sample_to_int16 s0 =
     (let s = max (- 1) (min 1 s0);
          v = lrint (s * 32767)
      in int16_bytes v)"

text \<open>
  \<^verbatim>\<open>AudioOutput::samplesToInt16\<close>, lines 41 to 59: \<^verbatim>\<open>bytes\<close> is resized to twice the
  number of samples and filled from the front, so the result does not depend on what it
  held before.
\<close>

fun samplesToInt16 :: "real list \<Rightarrow> 8 word list" where
  "samplesToInt16 [] = []"
| "samplesToInt16 (s # ss) = sample_to_int16 s @ samplesToInt16 ss"

text \<open>
  The reading side, as the specification words it: two bytes are a 16-bit two's complement
  value, low byte first, and the sample is that value divided by 32767.
\<close>

definition s16le_value :: "8 word \<Rightarrow> 8 word \<Rightarrow> int" where
  "s16le_value lo hi = sint (ucast lo OR push_bit 8 (ucast hi) :: 16 word)"

definition s16le_decode :: "8 word \<Rightarrow> 8 word \<Rightarrow> real" where
  "s16le_decode lo hi = real_of_int (s16le_value lo hi) / 32767"

subsection \<open>The stream of a .WAV file\<close>

text \<open>
  A \<^verbatim>\<open>FILE *\<close> opened for writing: the bytes of the file, the position of the next
  write, the number of bytes the medium can hold (a write that would go beyond it is
  short) and whether \<^verbatim>\<open>fseek\<close> succeeds.
\<close>

record wav_stream =
  contents :: "8 word list"
  pos :: nat
  capacity :: nat
  seekable :: bool

text \<open>\<^verbatim>\<open>fwrite(buf, 1, length buf, stream)\<close>: the new stream and the number of bytes written.\<close>

definition fwrite :: "8 word list \<Rightarrow> wav_stream \<Rightarrow> wav_stream \<times> nat" where
  "fwrite buf f =
     (let k = min (length buf) (capacity f - pos f);
          old = contents f @ replicate (pos f - length (contents f)) 0
      in (f\<lparr> contents := take (pos f) old @ take k buf @ drop (pos f + k) old,
              pos := pos f + k \<rparr>, k))"

text \<open>\<^verbatim>\<open>fseek(stream, 0, SEEK_SET)\<close>: the new stream and the return value.\<close>

definition fseek_start :: "wav_stream \<Rightarrow> wav_stream \<times> int" where
  "fseek_start f = (if seekable f then (f\<lparr> pos := 0 \<rparr>, 0) else (f, - 1))"

subsection \<open>WavAudioOutput\<close>

record WavAudioOutput =
  numberOfChannels :: "32 word"
  sampleRate :: "32 word"
  m_stream :: "wav_stream option"
  m_bytebuf :: "8 word list"
  m_error :: string
  m_zombie :: bool
  m_device_name :: string

text \<open>
  \<^verbatim>\<open>WavAudioOutput::encode_chunk_id\<close>, lines 257 to 263: the name must have exactly four
  characters, none of them the terminator.
\<close>

definition encode_chunk_id :: "string \<Rightarrow> error + 8 word list" where
  "encode_chunk_id chunkname =
     (if length chunkname = 4 \<and> CHR 0x00 \<notin> set chunkname
      then Inr (map of_char chunkname)
      else Inl AssertFailed)"

text \<open>
  \<^verbatim>\<open>WavAudioOutput::set_value<T>\<close>, lines 265 to 270, with \<open>k\<close> for
  \<^verbatim>\<open>sizeof(T)\<close>: the low byte first.
\<close>

fun set_value :: "nat \<Rightarrow> 'a::len word \<Rightarrow> 8 word list" where
  "set_value 0 v = []"
| "set_value (Suc k) v = ucast (v AND 0xff) # set_value k (drop_bit 8 v)"

text \<open>
  The 44 bytes that \<^verbatim>\<open>write_header\<close> builds in \<^verbatim>\<open>wavHeader\<close>, lines 223 to 252.
  The arithmetic is that of \<^verbatim>\<open>unsigned\<close>, 32 bits; the 16-bit fields take the low
  half of their argument.
\<close>

definition wav_header :: "32 word \<Rightarrow> 32 word \<Rightarrow> 32 word \<Rightarrow> error + 8 word list" where
  "wav_header channels rate nsamples =
     (let bytesPerSample = (2 :: 32 word);
          bitsPerSample = (16 :: 32 word);
          WAVE_FORMAT_PCM = (0x0001 :: 16 word)
      in if nsamples mod channels \<noteq> 0 then Inl AssertFailed
         else
           bind_err (encode_chunk_id ''RIFF'') (\<lambda>riff.
           bind_err (encode_chunk_id ''WAVE'') (\<lambda>wave.
           bind_err (encode_chunk_id ''fmt '') (\<lambda>fmt.
           bind_err (encode_chunk_id ''data'') (\<lambda>data.
             Inr (riff
                  @ set_value 4 (36 + nsamples * bytesPerSample)
                  @ wave
                  @ fmt
                  @ set_value 4 (16 :: 32 word)
                  @ set_value 2 WAVE_FORMAT_PCM
                  @ set_value 2 (ucast channels :: 16 word)
                  @ set_value 4 rate
                  @ set_value 4 (rate * channels * bytesPerSample)
                  @ set_value 2 (ucast (channels * bytesPerSample) :: 16 word)
                  @ set_value 2 (ucast bitsPerSample :: 16 word)
                  @ data
                  @ set_value 4 (nsamples * bytesPerSample)))))))"

text \<open>
  \<^verbatim>\<open>WavAudioOutput::write_header\<close>, lines 222 to 255: the header goes to the stream at
  its position, and the result tells whether all 44 bytes were written.
\<close>

definition write_header :: "WavAudioOutput \<Rightarrow> 32 word \<Rightarrow> error + (WavAudioOutput \<times> bool)" where
  "write_header w nsamples =
     bind_err (wav_header (numberOfChannels w) (sampleRate w) nsamples) (\<lambda>wavHeader.
       case m_stream w of
         None \<Rightarrow> Inl NullStream
       | Some f \<Rightarrow>
           (let (f1, k) = fwrite wavHeader f
            in Inr (w\<lparr> m_stream := Some f1 \<rparr>, k = 44)))"

text \<open>
  The constructor, lines 150 to 167. \<open>opened\<close> is what \<^verbatim>\<open>fopen\<close> returns
  (\<open>None\<close> for a null pointer) and \<open>strerror\<close> the text of the system's error.
\<close>

definition WavAudioOutput_init ::
  "wav_stream option \<Rightarrow> string \<Rightarrow> string \<Rightarrow> 32 word \<Rightarrow> bool \<Rightarrow> error + WavAudioOutput" where
  "WavAudioOutput_init opened strerror filename samplerate stereo =
     (let w = \<lparr> numberOfChannels = (if stereo then 2 else 1),
                 sampleRate = samplerate,
                 m_stream = opened,
                 m_bytebuf = [],
                 m_error = [],
                 m_zombie = False,
                 m_device_name = [] \<rparr>
      in case opened of
           None \<Rightarrow>
             Inr (w\<lparr> m_error := ''can not open '' @ [CHR 0x27] @ filename @ [CHR 0x27]
                                  @ '' ('' @ strerror @ '')'',
                      m_zombie := True \<rparr>)
         | Some f \<Rightarrow>
             bind_err (write_header w 0x7fff0000) (\<lambda>(w1, ok).
               Inr ((if ok then w1
                     else w1\<lparr> m_error := ''can not write to '' @ [CHR 0x27] @ filename
                                            @ [CHR 0x27] @ '' ('' @ strerror @ '')'',
                              m_zombie := True \<rparr>)
                    \<lparr> m_device_name := ''WavAudioOutput'' \<rparr>)))"

text \<open>\<^verbatim>\<open>WavAudioOutput::write\<close>, lines 201 to 219.\<close>

definition WavAudioOutput_write ::
  "string \<Rightarrow> WavAudioOutput \<Rightarrow> real list \<Rightarrow> error + (WavAudioOutput \<times> bool)" where
  "WavAudioOutput_write strerror w samples =
     (if m_zombie w then Inr (w, False)
      else
        (let w1 = w\<lparr> m_bytebuf := samplesToInt16 samples \<rparr>
         in case m_stream w1 of
              None \<Rightarrow> Inl NullStream
            | Some f \<Rightarrow>
                (let (f1, k) = fwrite (m_bytebuf w1) f;
                     w2 = w1\<lparr> m_stream := Some f1 \<rparr>
                 in if k \<noteq> length (m_bytebuf w1)
                    then Inr (w2\<lparr> m_error := ''write failed ('' @ strerror @ '')'' \<rparr>, False)
                    else Inr (w2, True))))"

text \<open>Division and remainder of C++ on \<^verbatim>\<open>long\<close>: the quotient is truncated towards zero.\<close>

definition c_div :: "int \<Rightarrow> int \<Rightarrow> int" where
  "c_div a b = sgn a * sgn b * (\<bar>a\<bar> div \<bar>b\<bar>)"

definition c_rem :: "int \<Rightarrow> int \<Rightarrow> int" where
  "c_rem a b = a - b * c_div a b"

text \<open>
  The destructor, lines 170 to 198. The result is the stream as \<^verbatim>\<open>fclose\<close> finds
  it, \<open>None\<close> when there was none.
\<close>

definition WavAudioOutput_close :: "WavAudioOutput \<Rightarrow> error + wav_stream option" where
  "WavAudioOutput_close w =
     (if \<not> m_zombie w then
        (case m_stream w of
           None \<Rightarrow> Inl NullStream
         | Some f \<Rightarrow>
             (let bytesPerSample = 2;
                  currentPosition = int (pos f)
              in if c_rem (currentPosition - 44) bytesPerSample \<noteq> 0 then Inl AssertFailed
                 else
                   (let totalNumberOfSamples =
                          (word_of_int (c_div (currentPosition - 44) bytesPerSample) :: 32 word)
                    in if totalNumberOfSamples mod numberOfChannels w \<noteq> 0 then Inl AssertFailed
                       else
                         (let (f1, r) = fseek_start f
                          in if r = 0
                             then bind_err (write_header (w\<lparr> m_stream := Some f1 \<rparr>)
                                              totalNumberOfSamples)
                                    (\<lambda>(w1, ok). Inr (m_stream w1))
                             else Inr (Some f1)))))
      else Inr (m_stream w))"

text \<open>
  Reading a header back: a little-endian field of a byte sequence, and the bytes from an
  offset on.
\<close>

fun le_word :: "8 word list \<Rightarrow> 'a::len word" where
  "le_word [] = 0"
| "le_word (b # bs) = ucast b OR push_bit 8 (le_word bs)"

definition header_field :: "8 word list \<Rightarrow> nat \<Rightarrow> nat \<Rightarrow> 8 word list" where
  "header_field h off k = take k (drop off h)"

text \<open>
  The layout of the header as the specification states it (section 6, WAV container): 44
  bytes, the tags, and the little-endian fields at their offsets.
\<close>

definition wav_header_layout :: "32 word \<Rightarrow> 32 word \<Rightarrow> 32 word \<Rightarrow> 8 word list \<Rightarrow> bool" where
  "wav_header_layout channels rate nsamples h =
     (length h = 44
      \<and> header_field h 0 4 = map of_char ''RIFF''
      \<and> le_word (header_field h 4 4) = 36 + 2 * nsamples
      \<and> header_field h 8 4 = map of_char ''WAVE''
      \<and> header_field h 12 4 = map of_char ''fmt ''
      \<and> le_word (header_field h 16 4) = (16 :: 32 word)
      \<and> le_word (header_field h 20 2) = (0x0001 :: 16 word)
      \<and> le_word (header_field h 22 2) = (ucast channels :: 16 word)
      \<and> le_word (header_field h 24 4) = rate
      \<and> le_word (header_field h 28 4) = rate * channels * 2
      \<and> le_word (header_field h 32 2) = (ucast (channels * 2) :: 16 word)
      \<and> le_word (header_field h 34 2) = (16 :: 16 word)
      \<and> header_field h 36 4 = map of_char ''data''
      \<and> le_word (header_field h 40 4) = 2 * nsamples)"

text \<open>
  The header when no assertion fails, field by field (lemma \<open>wav_header_eq\<close> relates it to
  \<open>wav_header\<close>).
\<close>

definition header_bytes :: "32 word \<Rightarrow> 32 word \<Rightarrow> 32 word \<Rightarrow> 8 word list" where
  "header_bytes channels rate nsamples =
     map of_char ''RIFF''
     @ set_value 4 (36 + nsamples * 2)
     @ map of_char ''WAVE''
     @ map of_char ''fmt ''
     @ set_value 4 (16 :: 32 word)
     @ set_value 2 (1 :: 16 word)
     @ set_value 2 (ucast channels :: 16 word)
     @ set_value 4 rate
     @ set_value 4 (rate * channels * 2)
     @ set_value 2 (ucast (channels * 2) :: 16 word)
     @ set_value 2 (16 :: 16 word)
     @ map of_char ''data''
     @ set_value 4 (nsamples * 2)"

text \<open>A new, empty file that can hold \<open>c\<close> bytes.\<close>

definition new_stream :: "nat \<Rightarrow> wav_stream" where
  "new_stream c = \<lparr> contents = [], pos = 0, capacity = c, seekable = True \<rparr>"

text \<open>
  A concrete run: a stereo file at 48 kHz is created on an empty medium of 100 bytes and
  one frame of two samples is written.
\<close>

definition wav_example :: "error + (WavAudioOutput \<times> bool)" where
  "wav_example =
     bind_err (WavAudioOutput_init (Some (new_stream 100)) [] ''a.wav'' 48000 True)
       (\<lambda>w. WavAudioOutput_write [] w [1 / 2, - 1])"

section \<open>The main program\<close>

subsection \<open>The length of the output buffer\<close>

text \<open>
  The result of an operation on doubles is the exact result rounded to the nearest double,
  the one with the even significand of two nearest: a double has 53 significant bits, so
  the doubles around \<open>x\<close> are the multiples of \<open>2 ^ (e - 52)\<close>, where
  \<open>2 ^ e \<le> \<bar>x\<bar> < 2 ^ (e + 1)\<close>, and of \<open>2 ^ (- 1074)\<close> below the normal range.
  Results beyond the largest double, which IEEE-754 makes infinite, are not modelled: the
  conversion below rejects them as it rejects every value from \<open>2 ^ 32\<close> on.
\<close>

definition double_ulp :: "real \<Rightarrow> real" where
  "double_ulp x = 2 powr real_of_int (max \<lfloor>log 2 \<bar>x\<bar>\<rfloor> (- 1022) - 52)"

definition round_double :: "real \<Rightarrow> real" where
  "round_double x =
     (if x = 0 then 0 else real_of_int (lrint (x / double_ulp x)) * double_ulp x)"

text \<open>\<^verbatim>\<open>(unsigned int) x\<close> for a double: truncation, defined when the result fits.\<close>

definition uint_of_double :: "real \<Rightarrow> error + nat" where
  "uint_of_double x = (if - 1 < x \<and> x < 2 ^ 32 then Inr (nat \<lfloor>x\<rfloor>) else Inl OutOfRange)"

text \<open>
  Lines 561 to 573 of \<^verbatim>\<open>main\<close>: the number of samples of the audio buffer from the
  option \<^verbatim>\<open>-b\<close> (the double \<open>bufsecs\<close>, \<open>-1\<close> when the option is absent) and the
  PCM rate, an \<^verbatim>\<open>int\<close>. The product of line 568 is one of doubles; the conversion of
  the rate to a double is exact.
\<close>

definition main_outputbuf_samples :: "real \<Rightarrow> int \<Rightarrow> error + nat" where
  "main_outputbuf_samples bufsecs pcmrate =
     bind_err (if bufsecs > 0 then uint_of_double (round_double (bufsecs * real_of_int pcmrate))
               else Inr (nat (pcmrate mod 2 ^ 32)))
       (\<lambda>outputbuf_samples.
          Inr (if outputbuf_samples < 480 then 480 else outputbuf_samples))"

text \<open>
  Lines 824 to 828: the third argument of \<^verbatim>\<open>write_output_data\<close>, which the output
  thread passes to \<^verbatim>\<open>wait_buffer_fill\<close> (lines 62 to 72). The product is one of
  \<^verbatim>\<open>unsigned int\<close>s.
\<close>

definition main_buf_minfill :: "real \<Rightarrow> int \<Rightarrow> bool \<Rightarrow> error + nat" where
  "main_buf_minfill bufsecs pcmrate stereo =
     bind_err (main_outputbuf_samples bufsecs pcmrate)
       (\<lambda>outputbuf_samples.
          let nchannel = (if stereo then 2 else 1)
          in Inr ((outputbuf_samples * nchannel) mod 2 ^ 32))"

text \<open>
  \<^verbatim>\<open>write_output_data\<close>, lines 62 to 72: in a turn of its loop the output thread
  waits when the buffer is empty, until \<open>buf_minfill\<close> samples are queued. The result
  is the argument of \<^verbatim>\<open>wait_buffer_fill\<close>, \<open>None\<close> when the thread does not wait.
\<close>

definition write_output_data_wait :: "nat \<Rightarrow> nat \<Rightarrow> nat option" where
  "write_output_data_wait buf_minfill queued =
     (if queued = 0 then Some buf_minfill else None)"

text \<open>The formula of the claim: the floor of 480 applied after the channel count.\<close>

definition claimed_buf_minfill :: "real \<Rightarrow> int \<Rightarrow> bool \<Rightarrow> nat" where
  "claimed_buf_minfill b r stereo =
     max 480 (nat \<lfloor>b * real_of_int r\<rfloor> * (if stereo then 2 else 1))"

subsection \<open>The main loop\<close>

datatype ModType = FM | AM | DSB | USB | LSB | CW | NBFM

text \<open>
  The variables that \<^verbatim>\<open>main\<close> sets before the loop and the loop reads: the IF rate,
  the number of blocks between two lines of statistics (line 837, an
  \<^verbatim>\<open>unsigned int\<close>), the modulation, the option \<^verbatim>\<open>-q\<close>, and whether a file for
  the PPS markers is open (\<^verbatim>\<open>ppsfile != nullptr\<close>).
\<close>

record main_loop_config =
  ifrate :: real
  stat_rate :: nat
  modtype :: ModType
  quietmode :: bool
  ppsfile :: bool

text \<open>
  What one turn of the loop reads from the other threads and from the decoder: the stop
  flag, the number of samples queued in the source buffer, the block that \<^verbatim>\<open>pull\<close>
  returns (empty at the end of the stream), and what \<^verbatim>\<open>fm.stereo_detected()\<close>
  returns once the block is decoded.
\<close>

record loop_input =
  stop_flag :: bool
  queued_samples :: nat
  pulled :: "complex list"
  fm_stereo_detected :: bool

text \<open>
  The variables of the loop that decide its course, the warnings written to the standard
  error stream, and the blocks handed to the decoding chain, in order.
\<close>

record main_loop_state =
  inbuf_length_warning :: bool
  block :: nat
  got_stereo :: bool
  stderr_log :: "string list"
  decoded :: "complex list list"

definition inbuf_warning :: string where
  "inbuf_warning = ''WARNING: Input buffer is growing (system too slow)''"

text \<open>
  Lines 859 to 863: the check of the source buffer at the start of a turn.
\<close>

definition main_check_inbuf :: "main_loop_config \<Rightarrow> loop_input \<Rightarrow> main_loop_state \<Rightarrow> main_loop_state" where
  "main_check_inbuf cfg e st =
     (if \<not> inbuf_length_warning st \<and> real (queued_samples e) > 10 * ifrate cfg
      then st\<lparr> stderr_log := stderr_log st @ [inbuf_warning], inbuf_length_warning := True \<rparr>
      else st)"

text \<open>
  Lines 960 to 1024: the status messages of a turn (\<^verbatim>\<open>COEFF_MONITOR\<close> is not
  defined). The lines of statistics are not recorded, but the condition that selects them
  is evaluated as the code does: \<^verbatim>\<open>block % stat_rate\<close> is a division by zero when
  \<open>stat_rate\<close> is zero, and for FM and NBFM the operator \<^verbatim>\<open>||\<close> skips it when the
  stereo state has changed.
\<close>

definition main_show_status ::
  "main_loop_config \<Rightarrow> loop_input \<Rightarrow> main_loop_state \<Rightarrow> error + main_loop_state" where
  "main_show_status cfg e st =
     (if quietmode cfg then Inr st
      else
        (let stereo_change = (modtype cfg = FM \<and> fm_stereo_detected e \<noteq> got_stereo st);
             st1 = (if stereo_change then st\<lparr> got_stereo := fm_stereo_detected e \<rparr> else st)
         in if modtype cfg = FM \<or> modtype cfg = NBFM
            then (if stereo_change then Inr st1
                  else if stat_rate cfg = 0 then Inl DivisionByZero else Inr st1)
            else (if stat_rate cfg = 0 then Inl DivisionByZero else Inr st1)))"

text \<open>
  Lines 1026 to 1053: the PPS markers. For FM the events of the pilot loop are written;
  for the other modulations a line is written every \<open>stat_rate * 10\<close> blocks, a product
  of \<^verbatim>\<open>unsigned int\<close>s.
\<close>

definition main_write_pps :: "main_loop_config \<Rightarrow> main_loop_state \<Rightarrow> error + main_loop_state" where
  "main_write_pps cfg st =
     (if ppsfile cfg \<and> modtype cfg \<noteq> FM
      then (if (stat_rate cfg * 10) mod 2 ^ 32 = 0 then Inl DivisionByZero else Inr st)
      else Inr st)"

text \<open>
  The loop of lines 857 to 1063 along the inputs of its turns. A block that is not empty
  is handed to the decoding chain, which is recorded in \<open>decoded\<close>; the calls of the
  chain and of the buffers are taken to return. Between the test of the pulled block and
  the end of the body the code has no \<^verbatim>\<open>break\<close>, \<^verbatim>\<open>return\<close> or \<^verbatim>\<open>exit\<close>, so
  that a turn ends the loop early only by a division by zero. The result is the state in
  which the loop ends, with the error when the end is abnormal.
\<close>

fun main_loop ::
  "main_loop_config \<Rightarrow> loop_input list \<Rightarrow> main_loop_state \<Rightarrow> error option \<times> main_loop_state" where
  "main_loop cfg [] st = (None, st)"
| "main_loop cfg (e # es) st =
     (if stop_flag e then (None, st)
      else
        (let st1 = main_check_inbuf cfg e st
         in if pulled e = [] then (None, st1)
            else
              (let st2 = st1\<lparr> decoded := decoded st1 @ [pulled e] \<rparr>
               in case bind_err (main_show_status cfg e st2) (main_write_pps cfg) of
                    Inl err \<Rightarrow> (Some err, st2)
                  | Inr st3 \<Rightarrow> main_loop cfg es (st3\<lparr> block := (block st3 + 1) mod 2 ^ 32 \<rparr>))))"

text \<open>The state in which \<^verbatim>\<open>main\<close> enters the loop.\<close>

definition main_loop_init :: main_loop_state where
  "main_loop_init =
     \<lparr> inbuf_length_warning = False, block = 0, got_stereo = False, stderr_log = [],
       decoded = [] \<rparr>"

text \<open>The turns of the loop that decode a block: those before the stop flag or an empty block.\<close>

definition live_inputs :: "loop_input list \<Rightarrow> loop_input list" where
  "live_inputs es = takeWhile (\<lambda>e. \<not> stop_flag e \<and> pulled e \<noteq> []) es"

text \<open>
  A turn and a configuration without what the check of the source buffer reads: the
  length of the queue and the IF rate.
\<close>

definition without_queue :: "loop_input \<Rightarrow> loop_input" where
  "without_queue e = e\<lparr> queued_samples := 0 \<rparr>"

definition without_ifrate :: "main_loop_config \<Rightarrow> main_loop_config" where
  "without_ifrate cfg = cfg\<lparr> ifrate := 0 \<rparr>"

text \<open>
  A run for concrete evaluation: FM at an IF rate of 384 kHz with blocks of 2048 samples
  and a PCM rate of 48 kHz, for which line 837 gives a \<open>stat_rate\<close> of 20, and four
  turns in which the queue is longer than ten times the IF rate.
\<close>

definition fm_config_example :: main_loop_config where
  "fm_config_example =
     \<lparr> ifrate = 384000, stat_rate = 20, modtype = FM, quietmode = False, ppsfile = False \<rparr>"

definition growing_queue_example :: "loop_input list" where
  "growing_queue_example =
     [\<lparr> stop_flag = False, queued_samples = 4000000, pulled = [1], fm_stereo_detected = True \<rparr>,
      \<lparr> stop_flag = False, queued_samples = 5000000, pulled = [2], fm_stereo_detected = True \<rparr>,
      \<lparr> stop_flag = False, queued_samples = 6000000, pulled = [3], fm_stereo_detected = True \<rparr>,
      \<lparr> stop_flag = False, queued_samples = 7000000, pulled = [], fm_stereo_detected = True \<rparr>]"

section \<open>Properties of the phase-locked loop\<close>

lemma pll_phase_wrap_frame [simp]:
  "m_freq (pll_phase_wrap wl n i s) = m_freq s"
  "m_minfreq (pll_phase_wrap wl n i s) = m_minfreq s"
  "m_maxfreq (pll_phase_wrap wl n i s) = m_maxfreq s"
  "m_minsignal (pll_phase_wrap wl n i s) = m_minsignal s"
  "m_pilot_level (pll_phase_wrap wl n i s) = m_pilot_level s"
  "m_lock_cnt (pll_phase_wrap wl n i s) = m_lock_cnt s"
  "m_lock_delay (pll_phase_wrap wl n i s) = m_lock_delay s"
  by (simp_all add: pll_phase_wrap_def Let_def)

lemma pll_filter_frame [simp]:
  "m_minfreq (pll_filter A x s) = m_minfreq s"
  "m_maxfreq (pll_filter A x s) = m_maxfreq s"
  "m_minsignal (pll_filter A x s) = m_minsignal s"
  "m_lock_cnt (pll_filter A x s) = m_lock_cnt s"
  "m_lock_delay (pll_filter A x s) = m_lock_delay s"
  "m_pps_events (pll_filter A x s) = m_pps_events s"
  by (simp_all add: pll_filter_def Let_def)

lemma pll_filter_clamped:
  assumes "m_minfreq s \<le> m_maxfreq s"
  shows "freq_in_range (pll_filter A x s)"
  using assms by (simp add: pll_filter_def Let_def freq_in_range_def)

lemma pll_sample_frame [simp]:
  "m_minfreq (fst (pll_sample A sh wl n i x s)) = m_minfreq s"
  "m_maxfreq (fst (pll_sample A sh wl n i x s)) = m_maxfreq s"
  "m_minsignal (fst (pll_sample A sh wl n i x s)) = m_minsignal s"
  "m_lock_cnt (fst (pll_sample A sh wl n i x s)) = m_lock_cnt s"
  "m_lock_delay (fst (pll_sample A sh wl n i x s)) = m_lock_delay s"
  by (simp_all add: pll_sample_def Let_def)

lemma pll_sample_clamped:
  assumes "m_minfreq s \<le> m_maxfreq s"
  shows "freq_in_range (fst (pll_sample A sh wl n i x s))"
  using pll_filter_clamped [OF assms, of A x]
  by (simp add: pll_sample_def Let_def freq_in_range_def)

lemma pll_loop_frame [simp]:
  "m_minfreq (fst (pll_loop A sh wl n i xs s)) = m_minfreq s"
  "m_maxfreq (fst (pll_loop A sh wl n i xs s)) = m_maxfreq s"
  "m_minsignal (fst (pll_loop A sh wl n i xs s)) = m_minsignal s"
  "m_lock_cnt (fst (pll_loop A sh wl n i xs s)) = m_lock_cnt s"
  "m_lock_delay (fst (pll_loop A sh wl n i xs s)) = m_lock_delay s"
  by (induction xs arbitrary: i s) (simp_all add: split_beta Let_def)

lemma pll_loop_in_range:
  "freq_in_range s \<Longrightarrow> freq_in_range (fst (pll_loop A sh wl n i xs s))"
proof (induction xs arbitrary: i s)
  case Nil
  then show ?case by simp
next
  case (Cons x xs)
  have "m_minfreq s \<le> m_maxfreq s"
    using Cons.prems by (simp add: freq_in_range_def)
  then have "freq_in_range (fst (pll_sample A sh wl n i x s))"
    by (rule pll_sample_clamped)
  then show ?case
    using Cons.IH by (simp add: split_beta Let_def)
qed

lemma pll_update_lock_frame [simp]:
  "m_freq (pll_update_lock n s) = m_freq s"
  "m_minfreq (pll_update_lock n s) = m_minfreq s"
  "m_maxfreq (pll_update_lock n s) = m_maxfreq s"
  "m_minsignal (pll_update_lock n s) = m_minsignal s"
  "m_pilot_level (pll_update_lock n s) = m_pilot_level s"
  "m_lock_delay (pll_update_lock n s) = m_lock_delay s"
  "m_pps_events (pll_update_lock n s) = m_pps_events s"
  "m_pilot_periods (pll_update_lock n s) = m_pilot_periods s"
  "m_pps_cnt (pll_update_lock n s) = m_pps_cnt s"
  by (simp_all add: pll_update_lock_def)

lemma pll_drop_pps_frame [simp]:
  "m_freq (pll_drop_pps s) = m_freq s"
  "m_minfreq (pll_drop_pps s) = m_minfreq s"
  "m_maxfreq (pll_drop_pps s) = m_maxfreq s"
  "m_minsignal (pll_drop_pps s) = m_minsignal s"
  "m_pilot_level (pll_drop_pps s) = m_pilot_level s"
  "m_lock_delay (pll_drop_pps s) = m_lock_delay s"
  "m_lock_cnt (pll_drop_pps s) = m_lock_cnt s"
  by (simp_all add: pll_drop_pps_def)

lemma process_frame [simp]:
  "m_minfreq (fst (PilotPhaseLock_process A s xs sh)) = m_minfreq s"
  "m_maxfreq (fst (PilotPhaseLock_process A s xs sh)) = m_maxfreq s"
  "m_minsignal (fst (PilotPhaseLock_process A s xs sh)) = m_minsignal s"
  "m_lock_delay (fst (PilotPhaseLock_process A s xs sh)) = m_lock_delay s"
  by (simp_all add: PilotPhaseLock_process_def Let_def split_beta)

lemma process_in_range:
  assumes "freq_in_range s"
  shows "freq_in_range (fst (PilotPhaseLock_process A s xs sh))"
proof -
  let ?s0 = "s\<lparr> m_pps_events := [], m_pilot_level := 1000 \<rparr>"
  have "freq_in_range ?s0"
    using assms by (simp add: freq_in_range_def)
  then have "freq_in_range (fst (pll_loop A sh (m_lock_delay s \<le> m_lock_cnt s)
      (uint_of_size (length xs)) 0 (take (uint_of_size (length xs)) xs) ?s0))"
    by (rule pll_loop_in_range)
  then show ?thesis
    using assms by (simp add: PilotPhaseLock_process_def Let_def split_beta freq_in_range_def)
qed

lemma pll_run_frame [simp]:
  "m_minfreq (pll_run A s bs) = m_minfreq s"
  "m_maxfreq (pll_run A s bs) = m_maxfreq s"
  "m_minsignal (pll_run A s bs) = m_minsignal s"
  "m_lock_delay (pll_run A s bs) = m_lock_delay s"
  by (induction bs arbitrary: s) simp_all

lemma pll_run_in_range:
  "freq_in_range s \<Longrightarrow> freq_in_range (pll_run A s bs)"
  by (induction bs arbitrary: s) (simp_all add: process_in_range)

lemma init_in_range:
  "0 \<le> bandwidth \<Longrightarrow> freq_in_range (PilotPhaseLock_init freq bandwidth minsignal)"
  by (simp add: PilotPhaseLock_init_def freq_in_range_def Let_def algebra_simps)

lemma init_bounds:
  "m_minfreq (PilotPhaseLock_init freq bandwidth minsignal) = (freq - bandwidth) * 2 * pi"
  "m_maxfreq (PilotPhaseLock_init freq bandwidth minsignal) = (freq + bandwidth) * 2 * pi"
  by (simp_all add: PilotPhaseLock_init_def Let_def)

lemma after_samples_in_range:
  assumes "freq_in_range s"
  shows "freq_in_range (pll_after_samples A s xs sh k)"
proof -
  have "freq_in_range (s\<lparr> m_pps_events := [], m_pilot_level := 1000 \<rparr>)"
    using assms by (simp add: freq_in_range_def)
  then show ?thesis
    unfolding pll_after_samples_def Let_def by (rule pll_loop_in_range)
qed

lemma after_samples_frame [simp]:
  "m_minfreq (pll_after_samples A s xs sh k) = m_minfreq s"
  "m_maxfreq (pll_after_samples A s xs sh k) = m_maxfreq s"
  by (simp_all add: pll_after_samples_def Let_def)

text \<open>
  Claim C1. Whatever blocks \<^verbatim>\<open>process\<close> has been given since the constructor, and
  after any number \<open>k\<close> of sample updates of the block in progress, the frequency of the
  loop is within \<open>2\<pi>\<cdot>bandwidth\<close> of \<open>2\<pi>\<cdot>freq\<close>, for a bandwidth that is not negative.
\<close>

theorem pll_freq_clamped:
  assumes "0 \<le> bandwidth"
  shows "\<bar>m_freq (pll_after_samples atan2f
                   (pll_run atan2f (PilotPhaseLock_init freq bandwidth minsignal) blocks)
                   samples_in pilot_shift k)
          - 2 * pi * freq\<bar> \<le> 2 * pi * bandwidth"
proof -
  let ?s = "pll_run atan2f (PilotPhaseLock_init freq bandwidth minsignal) blocks"
  let ?t = "pll_after_samples atan2f ?s samples_in pilot_shift k"
  have "freq_in_range ?s"
    using assms by (intro pll_run_in_range init_in_range)
  then have "freq_in_range ?t"
    by (rule after_samples_in_range)
  then have "(freq - bandwidth) * 2 * pi \<le> m_freq ?t" "m_freq ?t \<le> (freq + bandwidth) * 2 * pi"
    by (simp_all add: freq_in_range_def init_bounds)
  then show ?thesis
    by (simp add: abs_le_iff algebra_simps)
qed

theorem pll_freq_clamped_witness:
  "(0::real) \<le> 1 / 7680 \<and>
   \<bar>m_freq (pll_after_samples (\<lambda>q i. 0)
              (pll_run (\<lambda>q i. 0) (PilotPhaseLock_init (19 / 384) (1 / 7680) (1 / 100)) [([1, 0], False)])
              [1 / 2, 1 / 4] False 1)
     - 2 * pi * (19 / 384)\<bar> \<le> 2 * pi * (1 / 7680)"
  using pll_freq_clamped [of "1 / 7680" "\<lambda>q i. 0" "19 / 384" "1 / 100" "[([1, 0], False)]" "[1 / 2, 1 / 4]" False 1]
  by simp

lemma wrap_int32_le: "- (2 ^ 31) \<le> x \<Longrightarrow> wrap_int32 x \<le> x"
proof -
  assume "- (2 ^ 31) \<le> x"
  then have "0 \<le> x + 2 ^ 31" by simp
  then have "(x + 2 ^ 31) mod 2 ^ 32 \<le> x + 2 ^ 31"
    by (rule zmod_le_nonneg_dividend)
  then show ?thesis by (simp add: wrap_int32_def)
qed

lemma wrap_int32_ge: "- (2 ^ 31) \<le> wrap_int32 x"
  by (simp add: wrap_int32_def)

lemma process_lock_cnt:
  "m_lock_cnt (fst (PilotPhaseLock_process A s xs sh)) =
     (if uint_of_size (length xs) = 0 then m_lock_cnt s
      else if pilot_above_threshold (fst (PilotPhaseLock_process A s xs sh))
      then (if m_lock_cnt s < m_lock_delay s
            then wrap_int32 (m_lock_cnt s + int (uint_of_size (length xs)))
            else m_lock_cnt s)
      else 0)"
  by (simp add: PilotPhaseLock_process_def Let_def split_beta pilot_above_threshold_def
      pll_update_lock_def)

lemma process_lock_cnt_bounded:
  assumes "lock_cnt_bounded s r"
  shows "lock_cnt_bounded (fst (PilotPhaseLock_process A s xs sh))
           (if uint_of_size (length xs) = 0 then r
            else if pilot_above_threshold (fst (PilotPhaseLock_process A s xs sh))
            then r + uint_of_size (length xs) else 0)"
proof -
  let ?n = "uint_of_size (length xs)"
  have lo: "- (2 ^ 31) \<le> m_lock_cnt s + int ?n"
    using assms by (simp add: lock_cnt_bounded_def)
  have "wrap_int32 (m_lock_cnt s + int ?n) \<le> m_lock_cnt s + int ?n"
    using lo by (rule wrap_int32_le)
  then have "wrap_int32 (m_lock_cnt s + int ?n) \<le> int (r + ?n)"
    using assms by (simp add: lock_cnt_bounded_def)
  then show ?thesis
    using assms wrap_int32_ge [of "m_lock_cnt s + int ?n"]
    by (simp add: lock_cnt_bounded_def process_lock_cnt)
qed

lemma pll_run_lock_cnt_bounded:
  "lock_cnt_bounded s r \<Longrightarrow> lock_cnt_bounded (pll_run A s bs) (pll_good_run A s bs r)"
proof (induction bs arbitrary: s r)
  case Nil
  then show ?case by simp
next
  case (Cons b bs)
  show ?case
    using Cons.IH [OF process_lock_cnt_bounded [OF Cons.prems, of A "fst b" "snd b"]]
    by (simp add: Let_def)
qed

lemma init_lock_state:
  "m_lock_cnt (PilotPhaseLock_init freq bandwidth minsignal) = 0"
  "m_lock_delay (PilotPhaseLock_init freq bandwidth minsignal) = trunc_int (20 / bandwidth)"
  by (simp_all add: PilotPhaseLock_init_def Let_def)

text \<open>
  Claim C2. From a state whose lock counter is 0 (the constructor's state is one, with
  \<^verbatim>\<open>m_lock_delay = int(20.0 / bandwidth)\<close>, the quotient truncated), the loop is locked after a sequence of
  blocks only if the latest uninterrupted run of blocks with
  \<^verbatim>\<open>2 * m_pilot_level > m_minsignal\<close> holds at least \<^verbatim>\<open>m_lock_delay\<close> samples; and a
  block of at least one sample on which the condition fails leaves the lock counter at 0.
\<close>

theorem pll_lock_hysteresis:
  assumes "m_lock_cnt s = 0"
  shows "(locked (pll_run atan2f s blocks)
            \<longrightarrow> m_lock_delay s \<le> int (pll_good_run atan2f s blocks 0))
       \<and> (\<forall>t samples_in pilot_shift.
             uint_of_size (length samples_in) \<noteq> 0
             \<and> \<not> pilot_above_threshold (fst (PilotPhaseLock_process atan2f t samples_in pilot_shift))
             \<longrightarrow> m_lock_cnt (fst (PilotPhaseLock_process atan2f t samples_in pilot_shift)) = 0)
       \<and> m_lock_cnt (PilotPhaseLock_init freq bandwidth minsignal) = 0
       \<and> m_lock_delay (PilotPhaseLock_init freq bandwidth minsignal) = trunc_int (20 / bandwidth)"
proof -
  have "lock_cnt_bounded s 0"
    using assms by (simp add: lock_cnt_bounded_def)
  then have "lock_cnt_bounded (pll_run atan2f s blocks) (pll_good_run atan2f s blocks 0)"
    by (rule pll_run_lock_cnt_bounded)
  then have "locked (pll_run atan2f s blocks)
               \<longrightarrow> m_lock_delay s \<le> int (pll_good_run atan2f s blocks 0)"
    by (simp add: lock_cnt_bounded_def locked_def)
  moreover have "\<forall>t samples_in pilot_shift.
             uint_of_size (length samples_in) \<noteq> 0
             \<and> \<not> pilot_above_threshold (fst (PilotPhaseLock_process atan2f t samples_in pilot_shift))
             \<longrightarrow> m_lock_cnt (fst (PilotPhaseLock_process atan2f t samples_in pilot_shift)) = 0"
    by (simp add: process_lock_cnt)
  ultimately show ?thesis by (simp add: init_lock_state)
qed

text \<open>
  Blocks of zero samples: when the filter memory of the I branch is zero, the filtered I
  signal stays zero, and so does the pilot level of the block.
\<close>

lemma pll_phase_wrap_phasor [simp]:
  "m_phasor_i1 (pll_phase_wrap wl n i s) = m_phasor_i1 s"
  "m_phasor_i2 (pll_phase_wrap wl n i s) = m_phasor_i2 s"
  by (simp_all add: pll_phase_wrap_def Let_def)

lemma pll_filter_silent:
  assumes "phasor_i_zero s"
  shows "phasor_i_zero (pll_filter A 0 s)"
    and "m_pilot_level (pll_filter A 0 s) = min (m_pilot_level s) 0"
  using assms by (simp_all add: pll_filter_def Let_def phasor_i_zero_def)

lemma pll_sample_silent:
  assumes "phasor_i_zero s"
  shows "phasor_i_zero (fst (pll_sample A sh wl n i 0 s))"
    and "m_pilot_level (fst (pll_sample A sh wl n i 0 s)) = min (m_pilot_level s) 0"
  using pll_filter_silent [OF assms, of A]
  by (simp_all add: pll_sample_def Let_def phasor_i_zero_def)

lemma pll_loop_silent:
  assumes "phasor_i_zero s" "set xs \<subseteq> {0}"
  shows "phasor_i_zero (fst (pll_loop A sh wl n i xs s))
       \<and> m_pilot_level (fst (pll_loop A sh wl n i xs s))
           = (if xs = [] then m_pilot_level s else min (m_pilot_level s) 0)"
  using assms
proof (induction xs arbitrary: i s)
  case Nil
  then show ?case by simp
next
  case (Cons x xs)
  then have x: "x = 0" and xs: "set xs \<subseteq> {0}" by auto
  let ?s1 = "fst (pll_sample A sh wl n i 0 s)"
  have s1: "phasor_i_zero ?s1" "m_pilot_level ?s1 = min (m_pilot_level s) 0"
    using pll_sample_silent [OF Cons.prems(1)] by simp_all
  from Cons.IH [OF s1(1) xs, of "Suc i"] s1(2) show ?case
    by (simp add: x split_beta Let_def)
qed

lemma pll_update_lock_phasor [simp]:
  "m_phasor_i1 (pll_update_lock n s) = m_phasor_i1 s"
  "m_phasor_i2 (pll_update_lock n s) = m_phasor_i2 s"
  by (simp_all add: pll_update_lock_def)

lemma pll_drop_pps_phasor [simp]:
  "m_phasor_i1 (pll_drop_pps s) = m_phasor_i1 s"
  "m_phasor_i2 (pll_drop_pps s) = m_phasor_i2 s"
  by (simp_all add: pll_drop_pps_def)

lemma process_silent:
  assumes "phasor_i_zero s" "set xs \<subseteq> {0}" "uint_of_size (length xs) \<noteq> 0"
  shows "phasor_i_zero (fst (PilotPhaseLock_process A s xs sh))"
    and "m_pilot_level (fst (PilotPhaseLock_process A s xs sh)) = 0"
proof -
  let ?n = "uint_of_size (length xs)"
  let ?s0 = "s\<lparr> m_pps_events := [], m_pilot_level := 1000 \<rparr>"
  have z: "phasor_i_zero ?s0" using assms(1) by (simp add: phasor_i_zero_def)
  have t: "set (take ?n xs) \<subseteq> {0}" using assms(2) set_take_subset by fastforce
  have ne: "take ?n xs \<noteq> []" using assms(3) by (auto simp: uint_of_size_def)
  have l: "phasor_i_zero (fst (pll_loop A sh wl ?n 0 (take ?n xs) ?s0))
         \<and> m_pilot_level (fst (pll_loop A sh wl ?n 0 (take ?n xs) ?s0)) = 0" for wl
    using pll_loop_silent [OF z t, of A sh wl ?n 0] ne by simp
  show "phasor_i_zero (fst (PilotPhaseLock_process A s xs sh))"
    using l assms(3)
    by (simp add: PilotPhaseLock_process_def Let_def split_beta phasor_i_zero_def)
  show "m_pilot_level (fst (PilotPhaseLock_process A s xs sh)) = 0"
    using l assms(3)
    by (simp add: PilotPhaseLock_process_def Let_def split_beta)
qed

lemma uint_of_size_Suc0 [simp]: "uint_of_size (Suc 0) = Suc 0"
  by (simp add: uint_of_size_def)

lemma init_phasor_i_zero: "phasor_i_zero (PilotPhaseLock_init f bw ms)"
  by (simp add: phasor_i_zero_def PilotPhaseLock_init_def Let_def)

lemma init_minsignal [simp]: "m_minsignal (PilotPhaseLock_init f bw ms) = ms"
  by (simp add: PilotPhaseLock_init_def Let_def)

theorem pll_lock_hysteresis_witness:
  "m_lock_cnt (PilotPhaseLock_init 1 10 (- 1)) = 0
   \<and> m_lock_delay (PilotPhaseLock_init 1 10 (- 1)) = 2
   \<and> \<not> locked (pll_run (\<lambda>q i. 0) (PilotPhaseLock_init 1 10 (- 1)) [([0], False)])
   \<and> locked (pll_run (\<lambda>q i. 0) (PilotPhaseLock_init 1 10 (- 1)) [([0], False), ([0], False)])
   \<and> m_lock_delay (PilotPhaseLock_init 1 10 (- 1))
        \<le> int (pll_good_run (\<lambda>q i. 0) (PilotPhaseLock_init 1 10 (- 1)) [([0], False), ([0], False)] 0)"
proof -
  let ?s = "PilotPhaseLock_init 1 10 (- 1)"
  let ?A = "\<lambda>q i :: real. 0 :: real"
  have h: "m_lock_cnt ?s = 0" by (simp add: init_lock_state)
  have d: "m_lock_delay ?s = 2" by (simp add: init_lock_state trunc_int_def)
  let ?s1 = "fst (PilotPhaseLock_process ?A ?s [0] False)"
  let ?s2 = "fst (PilotPhaseLock_process ?A ?s1 [0] False)"
  have u: "uint_of_size (length [0::real]) \<noteq> 0" by simp
  have w: "wrap_int32 1 = 1" "wrap_int32 2 = 2" by (simp_all add: wrap_int32_def)
  have p1: "phasor_i_zero ?s1" "m_pilot_level ?s1 = 0"
    using process_silent [OF init_phasor_i_zero [of 1 10 "- 1"], of "[0]" ?A False] by simp_all
  have p2: "m_pilot_level ?s2 = 0"
    using process_silent(2) [OF p1(1), of "[0]" ?A False] by simp
  have c1: "m_lock_cnt ?s1 = 1"
    using p1(2) h d w by (simp add: process_lock_cnt [of ?A ?s] pilot_above_threshold_def)
  have c2: "m_lock_cnt ?s2 = 2"
    using p2 c1 d w by (simp add: process_lock_cnt [of ?A ?s1] pilot_above_threshold_def)
  have l1: "\<not> locked (pll_run ?A ?s [([0], False)])"
    using c1 d by (simp add: locked_def)
  have l2: "locked (pll_run ?A ?s [([0], False), ([0], False)])"
    using c2 d by (simp add: locked_def)
  from pll_lock_hysteresis [OF h, of ?A "[([0], False), ([0], False)]"] l2
  have "m_lock_delay ?s \<le> int (pll_good_run ?A ?s [([0], False), ([0], False)] 0)"
    by blast
  with h l1 l2 d show ?thesis by blast
qed

lemma pps_in_block_range:
  assumes "pps_in_block n ev"
  shows "0 \<le> block_position ev \<and> block_position ev < 1"
proof -
  from assms obtain i where i: "i < n" "block_position ev = real i / real n"
    by (auto simp: pps_in_block_def)
  then have "0 < real n" by simp
  with i show ?thesis by simp
qed

lemma pll_phase_wrap_events:
  assumes "ev \<in> set (m_pps_events (pll_phase_wrap wl n i s))"
  shows "ev \<in> set (m_pps_events s) \<or> (wl \<and> block_position ev = real i / real n)"
  using assms by (auto simp: pll_phase_wrap_def Let_def split: if_splits)

lemma pll_sample_events:
  assumes "ev \<in> set (m_pps_events (fst (pll_sample A sh wl n i x s)))"
  shows "ev \<in> set (m_pps_events s) \<or> (wl \<and> block_position ev = real i / real n)"
proof (cases "m_phase (pll_filter A x s) > 2 * pi")
  case True
  then have "ev \<in> set (m_pps_events (pll_phase_wrap wl n i (pll_filter A x s)))"
    using assms by (simp add: pll_sample_def Let_def)
  from pll_phase_wrap_events [OF this] show ?thesis by simp
next
  case False
  then show ?thesis using assms by (simp add: pll_sample_def Let_def)
qed

lemma pll_loop_events:
  assumes "ev \<in> set (m_pps_events (fst (pll_loop A sh wl n i xs s)))"
  shows "ev \<in> set (m_pps_events s)
       \<or> (wl \<and> (\<exists>j. i \<le> j \<and> j < i + length xs \<and> block_position ev = real j / real n))"
  using assms
proof (induction xs arbitrary: i s)
  case Nil
  then show ?case by simp
next
  case (Cons x xs)
  let ?s1 = "fst (pll_sample A sh wl n i x s)"
  from Cons.prems have "ev \<in> set (m_pps_events (fst (pll_loop A sh wl n (Suc i) xs ?s1)))"
    by (simp add: split_beta Let_def)
  from Cons.IH [OF this]
  consider "ev \<in> set (m_pps_events ?s1)"
    | j where "wl" "Suc i \<le> j" "j < Suc i + length xs" "block_position ev = real j / real n"
    by blast
  then show ?case
  proof cases
    case 1
    from pll_sample_events [OF this] show ?thesis by auto
  next
    case 2
    then have "i \<le> j \<and> j < i + length (x # xs) \<and> block_position ev = real j / real n"
      by simp
    with 2 show ?thesis by blast
  qed
qed

lemma process_events_cases:
  "m_pps_events (fst (PilotPhaseLock_process A s xs sh)) =
     (let n = uint_of_size (length xs) in
      if n = 0 then []
      else if locked (fst (PilotPhaseLock_process A s xs sh)) then
        m_pps_events (fst (pll_loop A sh (locked s) n 0 (take n xs)
                        (s\<lparr> m_pps_events := [], m_pilot_level := 1000 \<rparr>)))
      else [])"
  by (simp add: PilotPhaseLock_process_def Let_def split_beta locked_def pll_drop_pps_def)

lemma uint_of_size_le: "uint_of_size k \<le> k"
  by (simp add: uint_of_size_def)

lemma process_events_position:
  assumes "ev \<in> set (m_pps_events (fst (PilotPhaseLock_process A s xs sh)))"
  shows "locked s \<and> pps_in_block (uint_of_size (length xs)) ev"
proof -
  let ?n = "uint_of_size (length xs)"
  let ?s0 = "s\<lparr> m_pps_events := [], m_pilot_level := 1000 \<rparr>"
  from assms have "ev \<in> set (m_pps_events (fst (pll_loop A sh (locked s) ?n 0 (take ?n xs) ?s0)))"
    by (simp add: process_events_cases Let_def split: if_splits)
  from pll_loop_events [OF this]
  obtain j where "locked s" "j < length (take ?n xs)" "block_position ev = real j / real ?n"
    by auto
  moreover have "length (take ?n xs) = ?n"
    using uint_of_size_le [of "length xs"] by simp
  ultimately show ?thesis
    by (auto simp: pps_in_block_def)
qed

lemma process_counters_clear:
  assumes "pps_counters_clear s"
  shows "pps_counters_clear (fst (PilotPhaseLock_process A s xs sh))"
  using assms
  by (simp add: pps_counters_clear_def PilotPhaseLock_process_def Let_def split_beta locked_def
      pll_drop_pps_def)

lemma pll_run_counters_clear:
  "pps_counters_clear s \<Longrightarrow> pps_counters_clear (pll_run A s bs)"
  by (induction bs arbitrary: s) (simp_all add: process_counters_clear)

lemma init_counters_clear: "pps_counters_clear (PilotPhaseLock_init f bw ms)"
  by (simp add: pps_counters_clear_def PilotPhaseLock_init_def Let_def)

text \<open>
  The PPS counters are zero whenever the loop is not locked: this holds after the
  constructor and is kept by every call of \<^verbatim>\<open>process\<close>.
\<close>

lemma pll_reached_counters_clear:
  "pps_counters_clear (pll_run atan2f (PilotPhaseLock_init freq bandwidth minsignal) blocks)"
  by (intro pll_run_counters_clear init_counters_clear)

text \<open>
  Claim C3. In a state as the constructor and earlier calls leave it, after
  \<^verbatim>\<open>process\<close> on a block of \<open>n\<close> samples every PPS event of the list has
  \<^verbatim>\<open>block_position\<close> \<open>i / n\<close> for an index \<open>i < n\<close>, a value in \<open>[0, 1)\<close>; the list
  is empty when the loop was not locked at the start of the block; and when the loop is not
  locked at the end, the list is empty and the pilot-period and PPS counters are 0.
\<close>

theorem pll_pps_events_only_locked:
  assumes "pps_counters_clear s"
  shows "(\<forall>ev \<in> set (m_pps_events (fst (PilotPhaseLock_process atan2f s samples_in pilot_shift))).
            pps_in_block (uint_of_size (length samples_in)) ev
            \<and> 0 \<le> block_position ev \<and> block_position ev < 1)
       \<and> (\<not> locked s
            \<longrightarrow> m_pps_events (fst (PilotPhaseLock_process atan2f s samples_in pilot_shift)) = [])
       \<and> (\<not> locked (fst (PilotPhaseLock_process atan2f s samples_in pilot_shift))
            \<longrightarrow> m_pps_events (fst (PilotPhaseLock_process atan2f s samples_in pilot_shift)) = []
              \<and> m_pilot_periods (fst (PilotPhaseLock_process atan2f s samples_in pilot_shift)) = 0
              \<and> m_pps_cnt (fst (PilotPhaseLock_process atan2f s samples_in pilot_shift)) = 0)"
proof -
  define s' where "s' = fst (PilotPhaseLock_process atan2f s samples_in pilot_shift)"
  have a: "\<forall>ev \<in> set (m_pps_events s').
            pps_in_block (uint_of_size (length samples_in)) ev
            \<and> 0 \<le> block_position ev \<and> block_position ev < 1"
    using process_events_position pps_in_block_range unfolding s'_def by blast
  have b: "\<not> locked s \<longrightarrow> m_pps_events s' = []"
  proof
    assume "\<not> locked s"
    show "m_pps_events s' = []"
    proof (cases "m_pps_events s'")
      case Nil
      then show ?thesis .
    next
      case (Cons ev evs)
      then have "ev \<in> set (m_pps_events (fst (PilotPhaseLock_process atan2f s samples_in pilot_shift)))"
        by (simp add: s'_def)
      from process_events_position [OF this] \<open>\<not> locked s\<close> show ?thesis by simp
    qed
  qed
  have "pps_counters_clear s'"
    unfolding s'_def using assms by (rule process_counters_clear)
  then have c: "\<not> locked s' \<longrightarrow> m_pilot_periods s' = 0 \<and> m_pps_cnt s' = 0"
    by (simp add: pps_counters_clear_def)
  have d: "\<not> locked s' \<longrightarrow> m_pps_events s' = []"
    unfolding s'_def by (simp add: process_events_cases Let_def)
  from a b c d show ?thesis unfolding s'_def by blast
qed

lemma pps_example_events:
  "m_pps_events (fst (PilotPhaseLock_process (\<lambda>q i. 0) pps_example_state [0] False))
     = [\<lparr> pps_index = 0, sample_index = 0, block_position = 0 \<rparr>]"
  by (simp add: pps_example_state_def PilotPhaseLock_process_def pll_sample_def pll_filter_def
      pll_phase_wrap_def pll_update_lock_def pll_drop_pps_def PilotPhaseLock_init_def
      pilot_frequency_def trunc_int_def Let_def split_beta)

theorem pll_pps_events_only_locked_witness:
  "pps_counters_clear pps_example_state
   \<and> locked pps_example_state
   \<and> m_pps_events (fst (PilotPhaseLock_process (\<lambda>q i. 0) pps_example_state [0] False))
       = [\<lparr> pps_index = 0, sample_index = 0, block_position = 0 \<rparr>]
   \<and> pps_in_block (uint_of_size (length [0::real]))
        \<lparr> pps_index = 0, sample_index = 0, block_position = 0 \<rparr>"
proof -
  have h: "pps_counters_clear pps_example_state" and l: "locked pps_example_state"
    by (simp_all add: pps_counters_clear_def locked_def pps_example_state_def
        PilotPhaseLock_init_def trunc_int_def Let_def)
  from pll_pps_events_only_locked [OF h, of "\<lambda>q i. 0" "[0]" False]
  have "\<forall>ev \<in> set (m_pps_events (fst (PilotPhaseLock_process (\<lambda>q i. 0) pps_example_state [0] False))).
          pps_in_block (uint_of_size (length [0::real])) ev"
    by blast
  then have "pps_in_block (uint_of_size (length [0::real]))
               \<lparr> pps_index = 0, sample_index = 0, block_position = 0 \<rparr>"
    by (simp add: pps_example_events)
  with h l pps_example_events show ?thesis by blast
qed

section \<open>Properties of the channel matrixing\<close>

lemma uint_of_size_small: "k < 2 ^ 32 \<Longrightarrow> uint_of_size k = k"
  by (simp add: uint_of_size_def)

lemma lr_fill_append:
  "lr_fill f (is @ js) audio =
     (case lr_fill f is audio of Inl e \<Rightarrow> Inl e | Inr a \<Rightarrow> lr_fill f js a)"
  by (induction "is" arbitrary: audio) (simp_all add: Let_def)

lemma lr_fill_upt:
  assumes "length audio = 2 * n" "2 * n < 2 ^ 32" "k \<le> n"
  shows "\<exists>out. lr_fill f [0..<k] audio = Inr out \<and> length out = 2 * n
           \<and> (\<forall>i<k. out ! (2 * i) = fst (f i) \<and> out ! (2 * i + 1) = snd (f i))"
  using assms(3)
proof (induction k)
  case 0
  then show ?case using assms(1) by simp
next
  case (Suc k)
  then obtain a where a: "lr_fill f [0..<k] audio = Inr a" "length a = 2 * n"
    "\<forall>i<k. a ! (2 * i) = fst (f i) \<and> a ! (2 * i + 1) = snd (f i)"
    by auto
  have k: "2 * k + 1 < 2 * n" using Suc.prems by simp
  then have u: "uint_of_size (2 * k) = 2 * k" "uint_of_size (2 * k + 1) = 2 * k + 1"
    using assms(2) by (simp_all add: uint_of_size_small)
  let ?out = "a[2 * k := fst (f k), 2 * k + 1 := snd (f k)]"
  have "lr_fill f [0..<Suc k] audio = Inr ?out"
    using a k u by (simp add: lr_fill_append Let_def)
  moreover have "length ?out = 2 * n" using a by simp
  moreover have "\<forall>i<Suc k. ?out ! (2 * i) = fst (f i) \<and> ?out ! (2 * i + 1) = snd (f i)"
  proof (intro allI impI)
    fix i assume "i < Suc k"
    show "?out ! (2 * i) = fst (f i) \<and> ?out ! (2 * i + 1) = snd (f i)"
    proof (cases "i = k")
      case True
      then show ?thesis using a(2) k by (simp add: nth_list_update)
    next
      case False
      with \<open>i < Suc k\<close> have "i < k" by simp
      then have "2 * i \<noteq> 2 * k" "2 * i \<noteq> 2 * k + 1" "2 * i + 1 \<noteq> 2 * k" "2 * i + 1 \<noteq> 2 * k + 1"
        by presburger+
      then show ?thesis using a(3) \<open>i < k\<close> by (simp add: nth_list_update)
    qed
  qed
  ultimately show ?case by blast
qed

lemma length_resize [simp]: "length (resize k v) = k"
  by (simp add: resize_def)

lemma stereo_to_left_right_result:
  assumes "length samples_mono = length samples_stereo"
      and "length samples_mono < 2 ^ 31"
  shows "\<exists>out. stereo_to_left_right samples_mono samples_stereo audio = Inr out
           \<and> length out = 2 * length samples_mono
           \<and> (\<forall>i < length samples_mono.
                 out ! (2 * i) = samples_mono ! i + 1.017 * samples_stereo ! i
               \<and> out ! (2 * i + 1) = samples_mono ! i - 1.017 * samples_stereo ! i)"
proof -
  let ?n = "length samples_mono"
  let ?f = "\<lambda>i. let m = samples_mono ! i; s = 1.017 * samples_stereo ! i in (m + s, m - s)"
  have n: "uint_of_size ?n = ?n" and n2: "uint_of_size (2 * ?n) = 2 * ?n" and b: "2 * ?n < 2 ^ 32"
    using assms(2) by (simp_all add: uint_of_size_small)
  have "length (resize (2 * ?n) audio) = 2 * ?n" by simp
  from lr_fill_upt [OF this b order_refl, of ?f]
  obtain out where out: "lr_fill ?f [0..<?n] (resize (2 * ?n) audio) = Inr out"
    "length out = 2 * ?n"
    "\<forall>i<?n. out ! (2 * i) = fst (?f i) \<and> out ! (2 * i + 1) = snd (?f i)"
    by blast
  have "stereo_to_left_right samples_mono samples_stereo audio = Inr out"
    unfolding stereo_to_left_right_def Let_def n n2 using assms(1) out(1)
    by (simp add: Let_def)
  moreover have "\<forall>i < ?n. out ! (2 * i) = samples_mono ! i + 1.017 * samples_stereo ! i
               \<and> out ! (2 * i + 1) = samples_mono ! i - 1.017 * samples_stereo ! i"
    using out(3) by (simp add: Let_def)
  ultimately show ?thesis using out(2) by blast
qed

text \<open>
  With stereo enabled and detected and the pilot shift off, the audio that the output
  stage of \<^verbatim>\<open>process\<close> returns is that of \<^verbatim>\<open>stereo_to_left_right\<close> on the filtered
  mono and stereo buffers.
\<close>

lemma fm_output_stage_stereo:
  assumes "m_stereo_enabled d" "m_stereo_detected d" "\<not> m_pilot_shift d"
      and "fm_output_stage ops d audio = Inr (d', audio')"
  shows "stereo_to_left_right (m_buf_mono d') (m_buf_stereo d') audio = Inr audio'"
  using assms
  by (auto simp: fm_output_stage_def bind_err_def split_beta Let_def split: sum.splits)

text \<open>
  Claim C5. For mono and stereo vectors of the same length \<open>n\<close> (below \<open>2 ^ 31\<close>, so
  that \<^verbatim>\<open>2 * n\<close> fits an \<^verbatim>\<open>unsigned int\<close>), \<^verbatim>\<open>stereo_to_left_right\<close> returns
  \<open>2 * n\<close> samples, \<open>M[i] + 1.017\<cdot>S[i]\<close> at \<open>2 * i\<close> and \<open>M[i] - 1.017\<cdot>S[i]\<close> at
  \<open>2 * i + 1\<close>, whatever \<^verbatim>\<open>audio\<close> held before; and this is the audio of
  \<^verbatim>\<open>process\<close> when stereo is enabled and detected and the pilot shift is off.
\<close>

theorem stereo_to_left_right_matrix:
  assumes "length samples_mono = length samples_stereo"
      and "length samples_mono < 2 ^ 31"
  shows "(\<exists>out. stereo_to_left_right samples_mono samples_stereo audio = Inr out
           \<and> length out = 2 * length samples_mono
           \<and> (\<forall>i < length samples_mono.
                 out ! (2 * i) = samples_mono ! i + 1.017 * samples_stereo ! i
               \<and> out ! (2 * i + 1) = samples_mono ! i - 1.017 * samples_stereo ! i))
       \<and> (m_stereo_enabled d \<and> m_stereo_detected d \<and> \<not> m_pilot_shift d
            \<and> fm_output_stage ops d audio = Inr (d', audio')
          \<longrightarrow> stereo_to_left_right (m_buf_mono d') (m_buf_stereo d') audio = Inr audio')"
  using stereo_to_left_right_result [OF assms] fm_output_stage_stereo by blast

theorem stereo_to_left_right_matrix_witness:
  "length [1, 2 :: real] = length [10, 20 :: real] \<and> length [1, 2 :: real] < 2 ^ 31
   \<and> (\<exists>out. stereo_to_left_right [1, 2] [10, 20] [5] = Inr out \<and> length out = 4
        \<and> out ! 0 = 1 + 1.017 * 10 \<and> out ! 1 = 1 - 1.017 * 10)"
proof -
  have h1: "length [1, 2 :: real] = length [10, 20 :: real]" by simp
  have h2: "length [1, 2 :: real] < 2 ^ 31" by simp
  from stereo_to_left_right_matrix [OF h1 h2, of "[5]", THEN conjunct1]
  obtain out where o: "stereo_to_left_right [1, 2] [10, 20] [5] = Inr out" "length out = 4"
    "\<forall>i<2. out ! (2 * i) = [1, 2] ! i + 1.017 * [10, 20] ! i
          \<and> out ! (2 * i + 1) = [1, 2] ! i - 1.017 * [10, 20] ! i"
    by auto
  have "(0::nat) < 2" by simp
  with o(3) have "out ! (2 * 0) = [1, 2] ! 0 + 1.017 * [10, 20] ! 0
                \<and> out ! (2 * 0 + 1) = [1, 2] ! 0 - 1.017 * [10, 20] ! 0"
    by blast
  then have "out ! 0 = 1 + 1.017 * 10 \<and> out ! 1 = 1 - 1.017 * 10" by simp
  with o h1 h2 show ?thesis by blast
qed

section \<open>Properties of the decoder\<close>

text \<open>
  Claim C10. On an empty input block \<^verbatim>\<open>FmDecoder::process\<close> returns at once: the audio
  vector is resized to length 0 and the decoder, every component, level, flag and buffer of
  it, is as before. The pilot loop is not called; called on an empty block it returns at
  line 105 with nothing changed but the list of pending PPS events, which is cleared.
\<close>

theorem fm_process_empty_block:
  "FmDecoder_process ops d [] audio = Inr (d, [])
   \<and> PilotPhaseLock_process atan2f s [] pilot_shift = (s\<lparr> m_pps_events := [] \<rparr>, [])"
  by (simp add: FmDecoder_process_def resize_def PilotPhaseLock_process_def uint_of_size_def)

lemma fm_agc_stage_frame [simp]:
  "m_pilotpll (fm_agc_stage ops d xs) = m_pilotpll d"
  "m_stereo_enabled (fm_agc_stage ops d xs) = m_stereo_enabled d"
  "m_stereo_detected (fm_agc_stage ops d xs) = m_stereo_detected d"
  "m_pilot_shift (fm_agc_stage ops d xs) = m_pilot_shift d"
  by (simp_all add: fm_agc_stage_def split_beta)

lemma fm_bypass_multipath_frame [simp]:
  "m_pilotpll (fm_bypass_multipath d) = m_pilotpll d"
  "m_stereo_enabled (fm_bypass_multipath d) = m_stereo_enabled d"
  "m_stereo_detected (fm_bypass_multipath d) = m_stereo_detected d"
  "m_pilot_shift (fm_bypass_multipath d) = m_pilot_shift d"
  by (simp_all add: fm_bypass_multipath_def)

lemma fm_multipath_stage_frame [simp]:
  "m_pilotpll (fm_multipath_stage ops d) = m_pilotpll d"
  "m_stereo_enabled (fm_multipath_stage ops d) = m_stereo_enabled d"
  "m_stereo_detected (fm_multipath_stage ops d) = m_stereo_detected d"
  "m_pilot_shift (fm_multipath_stage ops d) = m_pilot_shift d"
  by (simp_all add: fm_multipath_stage_def split_beta Let_def)

lemma fm_discriminator_stage_frame [simp]:
  "m_pilotpll (fm_discriminator_stage ops d) = m_pilotpll d"
  "m_stereo_enabled (fm_discriminator_stage ops d) = m_stereo_enabled d"
  "m_stereo_detected (fm_discriminator_stage ops d) = m_stereo_detected d"
  "m_pilot_shift (fm_discriminator_stage ops d) = m_pilot_shift d"
  by (simp_all add: fm_discriminator_stage_def split_beta)

lemma fm_baseband_stage_frame [simp]:
  "m_pilotpll (fm_baseband_stage ops d) = m_pilotpll d"
  "m_stereo_enabled (fm_baseband_stage ops d) = m_stereo_enabled d"
  "m_stereo_detected (fm_baseband_stage ops d) = m_stereo_detected d"
  "m_pilot_shift (fm_baseband_stage ops d) = m_pilot_shift d"
  "m_buf_baseband (fm_baseband_stage ops d) = m_buf_decoded d"
  by (simp_all add: fm_baseband_stage_def split_beta)

lemma fm_mono_stage_frame [simp]:
  "m_pilotpll (fm_mono_stage ops d) = m_pilotpll d"
  "m_stereo_enabled (fm_mono_stage ops d) = m_stereo_enabled d"
  "m_stereo_detected (fm_mono_stage ops d) = m_stereo_detected d"
  "m_pilot_shift (fm_mono_stage ops d) = m_pilot_shift d"
  by (simp_all add: fm_mono_stage_def split_beta Let_def)












section \<open>Properties of the audio encoders\<close>

subsection \<open>Signed 16-bit samples\<close>

lemma lrint_error: "\<bar>real_of_int (lrint x) - x\<bar> \<le> 1 / 2"
  unfolding lrint_def Let_def by (auto; linarith)

lemma lrint_of_int [simp]: "lrint (of_int k) = k"
  by (simp add: lrint_def)

lemma lrint_mono: "x \<le> y \<Longrightarrow> lrint x \<le> lrint y"
proof -
  assume xy: "x \<le> y"
  have fl: "\<lfloor>x\<rfloor> \<le> \<lfloor>y\<rfloor>" using xy by (rule floor_mono)
  show ?thesis
  proof (cases "\<lfloor>x\<rfloor> = \<lfloor>y\<rfloor>")
    case True
    then show ?thesis using xy unfolding lrint_def Let_def by auto
  next
    case False
    with fl have "\<lfloor>x\<rfloor> + 1 \<le> \<lfloor>y\<rfloor>" by simp
    moreover have "lrint x \<le> \<lfloor>x\<rfloor> + 1" unfolding lrint_def Let_def by auto
    moreover have "\<lfloor>y\<rfloor> \<le> lrint y" unfolding lrint_def Let_def by auto
    ultimately show ?thesis by linarith
  qed
qed

lemma lrint_bounded:
  assumes "- 1 \<le> s" "s \<le> 1"
  shows "- 32767 \<le> lrint (s * 32767) \<and> lrint (s * 32767) \<le> 32767"
proof -
  have "lrint (of_int (- 32767)) \<le> lrint (s * 32767)"
    using assms by (intro lrint_mono) simp
  moreover have "lrint (s * 32767) \<le> lrint (of_int 32767)"
    using assms by (intro lrint_mono) simp
  ultimately show ?thesis by (simp only: lrint_of_int) 
qed

lemma byte_mask: "(0xff :: 'a::len word) = mask 8"
  by (simp add: mask_eq_exp_minus_1)

lemma bytes_word:
  "(ucast (ucast (u AND 0xff :: 64 word) :: 8 word) OR push_bit 8 (ucast (ucast (drop_bit 8 u AND 0xff) :: 8 word)) :: 16 word) = ucast u"
  unfolding byte_mask
  by (rule bit_word_eqI) (auto simp: bit_simps)

lemma s16le_value_int16_bytes:
  assumes "- 32768 \<le> v" "v < 32768"
  shows "int16_bytes v = [lo, hi] \<Longrightarrow> s16le_value lo hi = v"
proof -
  assume "int16_bytes v = [lo, hi]"
  then have "s16le_value lo hi = sint (ucast (word_of_int v :: 64 word) :: 16 word)"
    by (auto simp: int16_bytes_def s16le_value_def Let_def bytes_word)
  also have "(ucast (word_of_int v :: 64 word) :: 16 word) = word_of_int v"
    by (rule bit_word_eqI) (auto simp: bit_simps)
  also have "sint (word_of_int v :: 16 word) = v"
    using assms by (simp add: sint_sbintrunc' signed_take_bit_int_eq_self)
  finally show ?thesis .
qed

lemma length_sample_to_int16 [simp]: "length (sample_to_int16 s) = 2"
  by (simp add: sample_to_int16_def int16_bytes_def Let_def)

lemma length_samplesToInt16: "length (samplesToInt16 samples) = 2 * length samples"
  by (induction samples) simp_all

lemma samplesToInt16_nth:
  "i < length samples \<Longrightarrow>
     [samplesToInt16 samples ! (2 * i), samplesToInt16 samples ! (2 * i + 1)]
       = sample_to_int16 (samples ! i)"
proof (induction samples arbitrary: i)
  case Nil
  then show ?case by simp
next
  case (Cons s ss)
  obtain lo hi where b: "sample_to_int16 s = [lo, hi]"
    by (simp add: sample_to_int16_def int16_bytes_def Let_def)
  show ?case
  proof (cases i)
    case 0
    then show ?thesis by (simp add: b)
  next
    case (Suc j)
    then have "j < length ss" using Cons.prems by simp
    from Cons.IH [OF this] show ?thesis
      by (simp add: Suc b)
  qed
qed

lemma sample_roundtrip:
  assumes "- 1 \<le> s" "s \<le> 1" "sample_to_int16 s = [lo, hi]"
  shows "\<bar>s16le_decode lo hi - s\<bar> \<le> 1 / 32767"
proof -
  let ?v = "lrint (s * 32767)"
  have c: "max (- 1) (min 1 s) = s" using assms by simp
  have b: "- 32767 \<le> ?v" "?v \<le> 32767" using lrint_bounded [OF assms(1,2)] by simp_all
  have "int16_bytes ?v = [lo, hi]"
    using assms(3) by (simp add: sample_to_int16_def c Let_def)
  then have "s16le_value lo hi = ?v"
    using b by (intro s16le_value_int16_bytes) simp_all
  then have d: "s16le_decode lo hi = real_of_int ?v / 32767"
    by (simp add: s16le_decode_def)
  have "\<bar>real_of_int ?v - s * 32767\<bar> \<le> 1 / 2" by (rule lrint_error)
  then have "\<bar>real_of_int ?v / 32767 - s\<bar> \<le> (1 / 2) / 32767"
    by (simp add: field_simps abs_le_iff)
  then show ?thesis unfolding d by simp
qed

text \<open>
  Claim C6. \<^verbatim>\<open>samplesToInt16\<close> writes two bytes for every sample, and for a sample
  in \<open>[-1, 1]\<close> the 16-bit value read back from its two bytes, divided by 32767, is within
  \<open>1 / 32767\<close> of the sample.
\<close>

theorem samplesToInt16_roundtrip:
  "length (samplesToInt16 samples) = 2 * length samples
   \<and> (\<forall>i < length samples. - 1 \<le> samples ! i \<and> samples ! i \<le> 1 \<longrightarrow>
         \<bar>s16le_decode (samplesToInt16 samples ! (2 * i)) (samplesToInt16 samples ! (2 * i + 1))
            - samples ! i\<bar> \<le> 1 / 32767)"
  using sample_roundtrip samplesToInt16_nth length_samplesToInt16 by metis

lemma samplesToInt16_example: "samplesToInt16 [1 / 2, - 1, 3] = [0, 64, 1, 128, 255, 127]"
  by (simp add: sample_to_int16_def int16_bytes_def lrint_def Let_def)

theorem samplesToInt16_roundtrip_witness:
  "length (samplesToInt16 [1 / 2, - 1, 3]) = 2 * length [1 / 2, - 1, 3 :: real]
   \<and> samplesToInt16 [1 / 2, - 1, 3] = [0, 64, 1, 128, 255, 127]
   \<and> \<bar>s16le_decode 0 64 - 1 / 2\<bar> \<le> 1 / 32767
   \<and> \<bar>s16le_decode 1 128 - (- 1)\<bar> \<le> 1 / 32767"
proof -
  let ?xs = "[1 / 2, - 1, 3 :: real]"
  have r: "\<forall>i < length ?xs. - 1 \<le> ?xs ! i \<and> ?xs ! i \<le> 1 \<longrightarrow>
         \<bar>s16le_decode (samplesToInt16 ?xs ! (2 * i)) (samplesToInt16 ?xs ! (2 * i + 1))
            - ?xs ! i\<bar> \<le> 1 / 32767"
    and l: "length (samplesToInt16 ?xs) = 2 * length ?xs"
    using samplesToInt16_roundtrip [of ?xs] by blast+
  have "(0::nat) < length ?xs" "(1::nat) < length ?xs" by simp_all
  with r have "- 1 \<le> ?xs ! 0 \<and> ?xs ! 0 \<le> 1 \<longrightarrow>
         \<bar>s16le_decode (samplesToInt16 ?xs ! (2 * 0)) (samplesToInt16 ?xs ! (2 * 0 + 1))
            - ?xs ! 0\<bar> \<le> 1 / 32767"
    and "- 1 \<le> ?xs ! 1 \<and> ?xs ! 1 \<le> 1 \<longrightarrow>
         \<bar>s16le_decode (samplesToInt16 ?xs ! (2 * 1)) (samplesToInt16 ?xs ! (2 * 1 + 1))
            - ?xs ! 1\<bar> \<le> 1 / 32767"
    by blast+
  then have "\<bar>s16le_decode 0 64 - 1 / 2\<bar> \<le> 1 / 32767"
    and "\<bar>s16le_decode 1 128 - (- 1)\<bar> \<le> 1 / 32767"
    by (simp_all add: samplesToInt16_example del: samplesToInt16.simps)
  with l samplesToInt16_example show ?thesis by blast
qed

subsection \<open>The header of a .WAV file\<close>

lemma low_byte: "(ucast (ucast (v AND 0xff) :: 8 word) :: 'a::len word) = take_bit 8 (v :: 'a word)"
  unfolding byte_mask by (rule bit_word_eqI) (auto simp: bit_simps)

lemma take_bit_split_byte:
  "take_bit 8 v OR push_bit 8 (take_bit (8 * k) (drop_bit 8 v)) = take_bit (8 * Suc k) (v :: 'a::len word)"
proof (rule bit_word_eqI)
  fix n assume "n < LENGTH('a)"
  show "bit (take_bit 8 v OR push_bit 8 (take_bit (8 * k) (drop_bit 8 v))) n
          = bit (take_bit (8 * Suc k) v) n"
  proof (cases "n < 8")
    case True
    then show ?thesis by (simp add: bit_simps)
  next
    case False
    then have "8 + (n - 8) = n" by simp
    with False \<open>n < LENGTH('a)\<close> show ?thesis by (auto simp: bit_simps)
  qed
qed

lemma le_word_set_value:
  "le_word (set_value k v) = take_bit (8 * k) (v :: 'a::len word)"
proof (induction k arbitrary: v)
  case 0
  then show ?case by simp
next
  case (Suc k)
  have "le_word (set_value (Suc k) v)
          = ucast (ucast (v AND 0xff) :: 8 word) OR push_bit 8 (take_bit (8 * k) (drop_bit 8 v))"
    by (simp add: Suc)
  then show ?case
    by (simp only: low_byte take_bit_split_byte)
qed

lemma le_word_set_value_32: "le_word (set_value 4 (v :: 32 word)) = v"
  by (simp add: le_word_set_value take_bit_word_eq_self del: set_value.simps)

lemma le_word_set_value_16: "le_word (set_value 2 (v :: 16 word)) = v"
  by (simp add: le_word_set_value take_bit_word_eq_self del: set_value.simps)

lemma length_set_value [simp]: "length (set_value k v) = k"
  by (induction k arbitrary: v) simp_all

lemma chunk_ids:
  "encode_chunk_id ''RIFF'' = Inr (map of_char ''RIFF'')"
  "encode_chunk_id ''WAVE'' = Inr (map of_char ''WAVE'')"
  "encode_chunk_id ''fmt '' = Inr (map of_char ''fmt '')"
  "encode_chunk_id ''data'' = Inr (map of_char ''data'')"
  by (simp_all add: encode_chunk_id_def)

lemma wav_header_eq:
  "wav_header channels rate nsamples =
     (if nsamples mod channels \<noteq> 0 then Inl AssertFailed
      else Inr (header_bytes channels rate nsamples))"
  by (simp add: wav_header_def chunk_ids bind_err_def header_bytes_def Let_def)

lemma length_header_bytes [simp]: "length (header_bytes channels rate nsamples) = 44"
  by (simp add: header_bytes_def)

lemma header_bytes_fields:
  fixes channels rate nsamples h defines "h \<equiv> header_bytes channels rate nsamples"
  shows "header_field h 0 4 = map of_char ''RIFF''"
    and "le_word (header_field h 4 4) = 36 + 2 * nsamples"
    and "header_field h 8 4 = map of_char ''WAVE''"
    and "header_field h 12 4 = map of_char ''fmt ''"
    and "le_word (header_field h 16 4) = (16 :: 32 word)"
    and "le_word (header_field h 20 2) = (1 :: 16 word)"
    and "le_word (header_field h 22 2) = (ucast channels :: 16 word)"
    and "le_word (header_field h 24 4) = rate"
    and "le_word (header_field h 28 4) = rate * channels * 2"
    and "le_word (header_field h 32 2) = (ucast (channels * 2) :: 16 word)"
    and "le_word (header_field h 34 2) = (16 :: 16 word)"
    and "header_field h 36 4 = map of_char ''data''"
    and "le_word (header_field h 40 4) = 2 * nsamples"
  unfolding h_def header_bytes_def header_field_def
  by (simp_all add: le_word_set_value_32 le_word_set_value_16 mult.commute del: set_value.simps le_word.simps)

lemma header_bytes_layout:
  "wav_header_layout channels rate nsamples (header_bytes channels rate nsamples)"
  unfolding wav_header_layout_def
  using header_bytes_fields [of channels rate nsamples] by simp

lemma fwrite_fits:
  assumes "pos f + length buf \<le> capacity f" "pos f \<le> length (contents f)"
  shows "fwrite buf f =
           (f\<lparr> contents := take (pos f) (contents f) @ buf @ drop (pos f + length buf) (contents f),
                pos := pos f + length buf \<rparr>, length buf)"
proof -
  have "min (length buf) (capacity f - pos f) = length buf"
    using assms(1) by simp
  then show ?thesis
    using assms(2) by (simp add: fwrite_def Let_def)
qed

lemma write_header_fits:
  assumes "m_stream w = Some f" "nsamples mod numberOfChannels w = 0"
      and "pos f \<le> length (contents f)" "pos f + 44 \<le> capacity f"
  shows "write_header w nsamples =
           Inr (w\<lparr> m_stream := Some (f\<lparr> contents := take (pos f) (contents f)
                        @ header_bytes (numberOfChannels w) (sampleRate w) nsamples
                        @ drop (pos f + 44) (contents f),
                      pos := pos f + 44 \<rparr>) \<rparr>, True)"
  using assms
  by (simp add: write_header_def wav_header_eq bind_err_def fwrite_fits)

lemma c_div_rem_even: "c_rem (int (2 * n)) 2 = 0" "c_div (int (2 * n)) 2 = int n"
  by (simp_all add: c_rem_def c_div_def sgn_if)

lemma close_rewrites_header:
  assumes "m_stream w = Some f" "\<not> m_zombie w" "pos f = 44 + 2 * n" "seekable f"
      and "44 \<le> capacity f" "44 \<le> length (contents f)"
  shows "WavAudioOutput_close w =
           (if (word_of_nat n :: 32 word) mod numberOfChannels w \<noteq> 0 then Inl AssertFailed
            else Inr (Some (f\<lparr> contents := header_bytes (numberOfChannels w) (sampleRate w) (word_of_nat n)
                                    @ drop 44 (contents f),
                                 pos := 44 \<rparr>)))"
proof -
  have p: "int (pos f) - 44 = int (2 * n)" using assms(3) by simp
  let ?w1 = "w\<lparr> m_stream := Some (f\<lparr> pos := 0 \<rparr>) \<rparr>"
  have wh: "(word_of_nat n :: 32 word) mod numberOfChannels w = 0 \<Longrightarrow>
      write_header ?w1 (word_of_nat n) =
        Inr (?w1\<lparr> m_stream := Some ((f\<lparr> pos := 0 \<rparr>)\<lparr> contents := take 0 (contents f)
                        @ header_bytes (numberOfChannels w) (sampleRate w) (word_of_nat n)
                        @ drop (0 + 44) (contents f),
                      pos := 0 + 44 \<rparr>) \<rparr>, True)"
    using write_header_fits [of ?w1 "f\<lparr> pos := 0 \<rparr>" "word_of_nat n"] assms(5,6) by simp
  show ?thesis
    using assms(1,2,4) wh
    by (simp add: WavAudioOutput_close_def p c_div_rem_even fseek_start_def bind_err_def Let_def
        del: of_nat_mult)
qed

text \<open>
  Claim C7. With a stream that has room, \<^verbatim>\<open>write_header(nsamples)\<close> writes 44 bytes
  at the position of the stream and returns true; the bytes are the tags
  \<open>RIFF\<close>, \<open>WAVE\<close>, \<open>fmt\<close>, \<open>data\<close> and the little-endian fields of
  \<open>wav_header_layout\<close>: \<open>36 + 2\<cdot>nsamples\<close> at offset 4, format tag 1 at 20, the channel
  count at 22, the sample rate at 24, the byte rate at 28, the block size at 32, 16 bits at
  34 and \<open>2\<cdot>nsamples\<close> at 40, in the 32-bit arithmetic of the code. The destructor of a
  writer whose stream stands \<open>2\<cdot>n\<close> bytes behind the header rewrites the header with
  \<open>n\<close> samples when the channel count divides \<open>n\<close>, leaving the data as it is, and
  fails its assertion otherwise. The channel count of a constructed writer is 1 or 2.
\<close>

theorem wav_header_written:
  assumes "m_stream w = Some f"
  shows "(nsamples mod numberOfChannels w = 0 \<and> pos f \<le> length (contents f)
            \<and> pos f + 44 \<le> capacity f
          \<longrightarrow> (\<exists>f'. write_header w nsamples = Inr (w\<lparr> m_stream := Some f' \<rparr>, True)
                 \<and> pos f' = pos f + 44
                 \<and> take (pos f) (contents f') = take (pos f) (contents f)
                 \<and> wav_header_layout (numberOfChannels w) (sampleRate w) nsamples
                      (header_field (contents f') (pos f) 44)
                 \<and> drop (pos f + 44) (contents f') = drop (pos f + 44) (contents f)))
       \<and> (\<not> m_zombie w \<and> pos f = 44 + 2 * n \<and> seekable f \<and> 44 \<le> capacity f
            \<and> 44 \<le> length (contents f)
          \<longrightarrow> (if (word_of_nat n :: 32 word) mod numberOfChannels w = 0
               then \<exists>f'. WavAudioOutput_close w = Inr (Some f')
                      \<and> wav_header_layout (numberOfChannels w) (sampleRate w) (word_of_nat n)
                           (take 44 (contents f'))
                      \<and> drop 44 (contents f') = drop 44 (contents f)
               else WavAudioOutput_close w = Inl AssertFailed))
       \<and> (\<forall>opened strerror filename samplerate stereo w0.
             WavAudioOutput_init opened strerror filename samplerate stereo = Inr w0
             \<longrightarrow> numberOfChannels w0 = (if stereo then 2 else 1) \<and> sampleRate w0 = samplerate)"
proof (intro conjI impI allI)
  assume a: "nsamples mod numberOfChannels w = 0 \<and> pos f \<le> length (contents f)
            \<and> pos f + 44 \<le> capacity f"
  let ?h = "header_bytes (numberOfChannels w) (sampleRate w) nsamples"
  let ?f' = "f\<lparr> contents := take (pos f) (contents f) @ ?h @ drop (pos f + 44) (contents f),
               pos := pos f + 44 \<rparr>"
  have "write_header w nsamples = Inr (w\<lparr> m_stream := Some ?f' \<rparr>, True)"
    using write_header_fits [OF assms, of nsamples] a by simp
  moreover have "header_field (contents ?f') (pos f) 44 = ?h"
    using a by (simp add: header_field_def)
  moreover have "take (pos f) (contents ?f') = take (pos f) (contents f)"
    using a by simp
  moreover have "drop (pos f + 44) (contents ?f') = drop (pos f + 44) (contents f)"
    using a by simp
  ultimately show "\<exists>f'. write_header w nsamples = Inr (w\<lparr> m_stream := Some f' \<rparr>, True)
                 \<and> pos f' = pos f + 44
                 \<and> take (pos f) (contents f') = take (pos f) (contents f)
                 \<and> wav_header_layout (numberOfChannels w) (sampleRate w) nsamples
                      (header_field (contents f') (pos f) 44)
                 \<and> drop (pos f + 44) (contents f') = drop (pos f + 44) (contents f)"
    using header_bytes_layout [of "numberOfChannels w" "sampleRate w" nsamples]
    by (intro exI [of _ ?f']) simp
next
  assume b: "\<not> m_zombie w \<and> pos f = 44 + 2 * n \<and> seekable f \<and> 44 \<le> capacity f
            \<and> 44 \<le> length (contents f)"
  let ?h = "header_bytes (numberOfChannels w) (sampleRate w) (word_of_nat n)"
  let ?f' = "f\<lparr> contents := ?h @ drop 44 (contents f), pos := 44 \<rparr>"
  have c: "WavAudioOutput_close w =
           (if (word_of_nat n :: 32 word) mod numberOfChannels w \<noteq> 0 then Inl AssertFailed
            else Inr (Some ?f'))"
    using close_rewrites_header [OF assms, of n] b by simp
  show "if (word_of_nat n :: 32 word) mod numberOfChannels w = 0
               then \<exists>f'. WavAudioOutput_close w = Inr (Some f')
                      \<and> wav_header_layout (numberOfChannels w) (sampleRate w) (word_of_nat n)
                           (take 44 (contents f'))
                      \<and> drop 44 (contents f') = drop 44 (contents f)
               else WavAudioOutput_close w = Inl AssertFailed"
  proof (cases "(word_of_nat n :: 32 word) mod numberOfChannels w = 0")
    case True
    have "WavAudioOutput_close w = Inr (Some ?f')" using c True by simp
    moreover have "take 44 (contents ?f') = ?h" by simp
    moreover have "drop 44 (contents ?f') = drop 44 (contents f)" by simp
    ultimately have "\<exists>f'. WavAudioOutput_close w = Inr (Some f')
                      \<and> wav_header_layout (numberOfChannels w) (sampleRate w) (word_of_nat n)
                           (take 44 (contents f'))
                      \<and> drop 44 (contents f') = drop 44 (contents f)"
      using header_bytes_layout [of "numberOfChannels w" "sampleRate w" "word_of_nat n"]
      by (intro exI [of _ ?f']) simp
    then show ?thesis using True by simp
  next
    case False
    then show ?thesis using c by simp
  qed
next
  fix opened strerror filename samplerate stereo w0
  assume "WavAudioOutput_init opened strerror filename samplerate stereo = Inr w0"
  then show "numberOfChannels w0 = (if stereo then 2 else 1)" "sampleRate w0 = samplerate"
    by (auto simp: WavAudioOutput_init_def write_header_def bind_err_def Let_def split_beta
        split: option.splits sum.splits if_splits)
qed

lemma wav_example_state:
  "wav_example =
     Inr (\<lparr> numberOfChannels = 2, sampleRate = 48000,
            m_stream = Some \<lparr> contents = header_bytes 2 48000 0x7fff0000 @ [0, 64, 1, 128],
                              pos = 48, capacity = 100, seekable = True \<rparr>,
            m_bytebuf = [0, 64, 1, 128], m_error = [], m_zombie = False,
            m_device_name = ''WavAudioOutput'' \<rparr>, True)"
proof -
  let ?f0 = "\<lparr> contents = [], pos = 0, capacity = 100, seekable = True \<rparr>"
  let ?w = "\<lparr> numberOfChannels = 2, sampleRate = 48000, m_stream = Some ?f0,
               m_bytebuf = [], m_error = [], m_zombie = False, m_device_name = [] \<rparr>"
  have h: "write_header ?w 0x7fff0000 =
      Inr (?w\<lparr> m_stream := Some \<lparr> contents = header_bytes 2 48000 0x7fff0000, pos = 44,
                                     capacity = 100, seekable = True \<rparr> \<rparr>, True)"
    using write_header_fits [of ?w ?f0 "0x7fff0000"] by simp
  have s: "samplesToInt16 [1 / 2, - 1] = [0, 64, 1, 128]"
    by (simp add: sample_to_int16_def int16_bytes_def lrint_def Let_def)
  show ?thesis
    unfolding wav_example_def WavAudioOutput_init_def Let_def new_stream_def
    by (simp add: h bind_err_def WavAudioOutput_write_def s fwrite_def Let_def
        del: samplesToInt16.simps)
qed

theorem wav_header_written_witness:
  "\<exists>w f. wav_example = Inr (w, True) \<and> m_stream w = Some f
     \<and> \<not> m_zombie w \<and> pos f = 44 + 2 * 2 \<and> seekable f \<and> 44 \<le> capacity f
     \<and> 44 \<le> length (contents f)
     \<and> (word_of_nat 2 :: 32 word) mod numberOfChannels w = 0
     \<and> (\<exists>f'. WavAudioOutput_close w = Inr (Some f')
            \<and> wav_header_layout 2 48000 2 (take 44 (contents f'))
            \<and> drop 44 (contents f') = [0, 64, 1, 128])"
proof -
  let ?f = "\<lparr> contents = header_bytes 2 48000 0x7fff0000 @ [0, 64, 1, 128],
                              pos = 48, capacity = 100, seekable = True \<rparr>"
  let ?w = "\<lparr> numberOfChannels = 2, sampleRate = 48000,
            m_stream = Some ?f,
            m_bytebuf = [0, 64, 1, 128], m_error = [], m_zombie = False,
            m_device_name = ''WavAudioOutput'' \<rparr>"
  have m: "m_stream ?w = Some ?f" by simp
  have hyp: "\<not> m_zombie ?w \<and> pos ?f = 44 + 2 * 2 \<and> seekable ?f \<and> 44 \<le> capacity ?f
     \<and> 44 \<le> length (contents ?f)" by simp
  have dv: "(word_of_nat 2 :: 32 word) mod numberOfChannels ?w = 0" by simp
  from wav_header_written [OF m, of 0 2] hyp dv
  have c: "\<exists>f'. WavAudioOutput_close ?w = Inr (Some f')
            \<and> wav_header_layout 2 48000 2 (take 44 (contents f'))
            \<and> drop 44 (contents f') = [0, 64, 1, 128]"
    by simp
  show ?thesis
    apply (rule exI [of _ ?w])
    apply (rule exI [of _ ?f])
    using wav_example_state c apply simp
    done
qed

section \<open>Properties of the main program\<close>

lemma two_powr_diff: "2 powr real_of_int (int a - int b) = 2 ^ a / 2 ^ b"
  by (simp add: powr_diff powr_realpow)

lemma double_ulp_scaled:
  assumes "2 ^ 52 \<le> \<bar>x\<bar> * 2 ^ j" "\<bar>x\<bar> * 2 ^ j < 2 ^ 53" "j \<le> 1074"
  shows "double_ulp x = 1 / 2 ^ j"
proof -
  have pos: "0 < \<bar>x\<bar>"
  proof (rule ccontr)
    assume "\<not> 0 < \<bar>x\<bar>"
    then have "\<bar>x\<bar> * 2 ^ j = 0" by simp
    with assms(1) show False by simp
  qed
  have a: "2 powr real_of_int (int 52 - int j) \<le> \<bar>x\<bar>"
    unfolding two_powr_diff using assms(1) by (simp add: field_simps)
  have "int 52 - int j + 1 = int 53 - int j" by simp
  then have "2 powr real_of_int (int 52 - int j + 1) = 2 powr real_of_int (int 53 - int j)"
    by (rule arg_cong)
  also have "\<dots> = 2 ^ 53 / 2 ^ j" by (rule two_powr_diff)
  finally have e: "2 powr real_of_int (int 52 - int j + 1) = 2 ^ 53 / 2 ^ j" .
  have b: "\<bar>x\<bar> < 2 powr real_of_int (int 52 - int j + 1)"
    unfolding e using assms(2) by (simp add: field_simps)
  have "\<lfloor>log 2 \<bar>x\<bar>\<rfloor> = int 52 - int j"
    using pos a b by (simp only: floor_log_eq_powr_iff)
  then have "double_ulp x = 2 powr real_of_int (int 0 - int j)"
    using assms(3) by (simp add: double_ulp_def)
  also have "\<dots> = 1 / 2 ^ j" unfolding two_powr_diff by simp
  finally show ?thesis .
qed

lemma round_double_scaled:
  assumes "2 ^ 52 \<le> \<bar>x\<bar> * 2 ^ j" "\<bar>x\<bar> * 2 ^ j < 2 ^ 53" "j \<le> 1074"
  shows "round_double x = real_of_int (lrint (x * 2 ^ j)) / 2 ^ j"
proof -
  have "x \<noteq> 0" using assms(1) by auto
  then show ?thesis
    by (simp add: round_double_def double_ulp_scaled [OF assms])
qed

lemma lrint_nonneg: "0 \<le> x \<Longrightarrow> 0 \<le> lrint x"
  by (simp add: lrint_def Let_def)

lemma double_ulp_pos: "0 < double_ulp x"
  by (simp add: double_ulp_def)

lemma round_double_nonneg: "0 \<le> x \<Longrightarrow> 0 \<le> round_double x"
  using double_ulp_pos [of x] by (simp add: round_double_def lrint_nonneg)

lemma round_double_375: "round_double 375 = 375"
  using round_double_scaled [of 375 44] by (simp add: lrint_def)

text \<open>
  The double nearest to 0.7 is \<open>3152519739159347 / 2 ^ 52\<close>; its exact product with 48000
  is below 33600 and rounds to the double 33600. The double nearest to 0.29 is
  \<open>5224175567749775 / 2 ^ 54\<close>; its product with 48000 rounds to the double below 13920.
\<close>

lemma round_double_33600:
  "round_double (3152519739159347 / 2 ^ 52 * real_of_int 48000) = 33600"
  using round_double_scaled [of "3152519739159347 / 2 ^ 52 * real_of_int 48000" 37]
  by (simp add: lrint_def)

lemma round_double_13920:
  "round_double (5224175567749775 / 2 ^ 54 * real_of_int 48000) = 7652600929320959 / 2 ^ 39"
  using round_double_scaled [of "5224175567749775 / 2 ^ 54 * real_of_int 48000" 39]
  by (simp add: lrint_def)

text \<open>
  Claim C8 says that the minimum fill is \<open>max(480, floor(b\<cdot>r)\<cdot>c)\<close>. For a buffer of
  \<open>1 / 128\<close> s at 48 kHz in stereo the product \<open>b\<cdot>r\<close> is 375, which is exact in a
  double; the code computes 960 and the formula gives 750.
\<close>

theorem buf_minfill_counterexample:
  "main_buf_minfill (1 / 128) 48000 True = Inr 960
   \<and> claimed_buf_minfill (1 / 128) 48000 True = 750
   \<and> main_buf_minfill (1 / 128) 48000 True \<noteq> Inr (claimed_buf_minfill (1 / 128) 48000 True)"
  by (simp add: main_buf_minfill_def main_outputbuf_samples_def uint_of_double_def bind_err_def
      claimed_buf_minfill_def Let_def round_double_375)

text \<open>
  Claim C8, amended. For a buffer length \<open>b > 0\<close>, a PCM rate \<open>r \<ge> 0\<close> and one or two
  channels, let \<open>p\<close> be the product \<open>b\<cdot>r\<close> as the code computes it, rounded to a double.
  The minimum fill passed to the output thread is \<open>max(480, floor(p))\<cdot>c\<close> when that fits
  an \<^verbatim>\<open>unsigned int\<close>: the floor of 480 applies to the samples of one channel, before
  the channel count multiplies. The output thread waits for that many samples when it
  finds the buffer empty.
\<close>

theorem buf_minfill_amended:
  assumes "0 < b" "0 \<le> r"
      and "max 480 (nat \<lfloor>round_double (b * real_of_int r)\<rfloor>) * (if stereo then 2 else 1) < 2 ^ 32"
  shows "main_buf_minfill b r stereo
           = Inr (max 480 (nat \<lfloor>round_double (b * real_of_int r)\<rfloor>) * (if stereo then 2 else 1))
       \<and> write_output_data_wait
             (max 480 (nat \<lfloor>round_double (b * real_of_int r)\<rfloor>) * (if stereo then 2 else 1)) 0
           = Some (max 480 (nat \<lfloor>round_double (b * real_of_int r)\<rfloor>) * (if stereo then 2 else 1))"
proof -
  define p where "p = round_double (b * real_of_int r)"
  let ?n = "nat \<lfloor>p\<rfloor>"
  have "0 \<le> b * real_of_int r" using assms(1,2) by simp
  then have nn: "0 \<le> p" unfolding p_def by (rule round_double_nonneg)
  define m where "m = max 480 ?n"
  have a3: "m * (if stereo then 2 else 1) < 2 ^ 32"
    using assms(3) by (simp only: m_def p_def)
  have "?n < 2 ^ 32"
  proof -
    have "?n \<le> m" by (simp add: m_def)
    also have "m \<le> m * (if stereo then 2 else 1)" by (cases stereo) simp_all
    finally show ?thesis using a3 by simp
  qed
  moreover have "0 \<le> \<lfloor>p\<rfloor>" using nn by simp
  ultimately have "\<lfloor>p\<rfloor> < int (2 ^ 32)"
    by (simp only: nat_less_iff)
  then have lt: "p < 2 ^ 32"
    by (simp add: floor_less_iff)
  have u: "uint_of_double p = Inr ?n"
    using nn lt by (simp add: uint_of_double_def)
  have m: "(if ?n < 480 then 480 else ?n) = m" by (simp add: m_def)
  have "main_outputbuf_samples b r = Inr m"
    using assms(1) u m
    by (simp add: main_outputbuf_samples_def bind_err_def p_def [symmetric])
  then have "main_buf_minfill b r stereo = Inr (m * (if stereo then 2 else 1))"
    using a3 by (simp add: main_buf_minfill_def bind_err_def Let_def del: of_nat_mult)
  then show ?thesis
    by (simp add: write_output_data_wait_def m_def p_def)
qed

theorem buf_minfill_amended_witness:
  "(0::real) < 3152519739159347 / 2 ^ 52 \<and> (0::int) \<le> 48000
   \<and> nat \<lfloor>3152519739159347 / 2 ^ 52 * real_of_int 48000\<rfloor> = 33599
   \<and> main_buf_minfill (3152519739159347 / 2 ^ 52) 48000 True = Inr 67200
   \<and> write_output_data_wait 67200 0 = Some 67200"
  using buf_minfill_amended [of "3152519739159347 / 2 ^ 52" 48000 True, unfolded round_double_33600]
  by simp

text \<open>
  For the double nearest to 0.29 the rounded product is below 13920, so that the buffer
  has 13919 samples for a channel.
\<close>

lemma buf_minfill_example:
  "main_buf_minfill (5224175567749775 / 2 ^ 54) 48000 True = Inr 27838"
  unfolding main_buf_minfill_def main_outputbuf_samples_def round_double_13920
  by (simp add: uint_of_double_def bind_err_def Let_def)

lemma main_check_inbuf_frame [simp]:
  "block (main_check_inbuf cfg e st) = block st"
  "got_stereo (main_check_inbuf cfg e st) = got_stereo st"
  "decoded (main_check_inbuf cfg e st) = decoded st"
  by (simp_all add: main_check_inbuf_def)

lemma main_check_inbuf_warnings:
  "count_list (stderr_log (main_check_inbuf cfg e st)) inbuf_warning
     + (if inbuf_length_warning (main_check_inbuf cfg e st) then 0 else 1)
   \<le> count_list (stderr_log st) inbuf_warning + (if inbuf_length_warning st then 0 else 1)"
  by (simp add: main_check_inbuf_def)

lemma main_turn_frame:
  assumes "bind_err (main_show_status cfg e st) (main_write_pps cfg) = Inr st'"
  shows "inbuf_length_warning st' = inbuf_length_warning st" "stderr_log st' = stderr_log st"
    "decoded st' = decoded st" "block st' = block st"
  using assms
  by (auto simp: bind_err_def main_show_status_def main_write_pps_def Let_def
      split: sum.splits if_splits)

lemma main_loop_warnings:
  "count_list (stderr_log (snd (main_loop cfg es st))) inbuf_warning
     \<le> count_list (stderr_log st) inbuf_warning + (if inbuf_length_warning st then 0 else 1)"
proof (induction es arbitrary: st)
  case Nil
  then show ?case by simp
next
  case (Cons e es)
  show ?case
  proof (cases "stop_flag e")
    case True
    then show ?thesis by simp
  next
    case False
    let ?st1 = "main_check_inbuf cfg e st"
    let ?st2 = "?st1\<lparr> decoded := decoded ?st1 @ [pulled e] \<rparr>"
    have s1: "count_list (stderr_log ?st1) inbuf_warning + (if inbuf_length_warning ?st1 then 0 else 1)
                \<le> count_list (stderr_log st) inbuf_warning + (if inbuf_length_warning st then 0 else 1)"
      by (rule main_check_inbuf_warnings)
    show ?thesis
    proof (cases "pulled e = []")
      case True
      then have "main_loop cfg (e # es) st = (None, ?st1)"
        using False by (simp add: Let_def)
      then show ?thesis using s1 by simp
    next
      case ne: False
      show ?thesis
      proof (cases "bind_err (main_show_status cfg e ?st2) (main_write_pps cfg)")
        case (Inl err)
        then have "main_loop cfg (e # es) st = (Some err, ?st2)"
          using False ne by (simp add: Let_def)
        then show ?thesis using s1 by simp
      next
        case (Inr st3)
        let ?st4 = "st3\<lparr> block := (block st3 + 1) mod 2 ^ 32 \<rparr>"
        have l: "main_loop cfg (e # es) st = main_loop cfg es ?st4"
          using False ne Inr by (simp add: Let_def)
        have "count_list (stderr_log (snd (main_loop cfg es ?st4))) inbuf_warning
          \<le> count_list (stderr_log ?st4) inbuf_warning + (if inbuf_length_warning ?st4 then 0 else 1)"
          by (rule Cons.IH)
        moreover have "stderr_log ?st4 = stderr_log ?st1"
          "inbuf_length_warning ?st4 = inbuf_length_warning ?st1"
          using main_turn_frame [OF Inr] by simp_all
        ultimately show ?thesis using s1 l by simp
      qed
    qed
  qed
qed

text \<open>Two states of the loop that differ at most in what the check of the source buffer writes.\<close>

lemma main_turn_course:
  assumes "stat_rate cfg' = stat_rate cfg" "modtype cfg' = modtype cfg"
    "quietmode cfg' = quietmode cfg" "ppsfile cfg' = ppsfile cfg"
    and "fm_stereo_detected e' = fm_stereo_detected e"
    and "got_stereo st' = got_stereo st"
  shows "(case bind_err (main_show_status cfg' e' st') (main_write_pps cfg') of
            Inl err' \<Rightarrow> bind_err (main_show_status cfg e st) (main_write_pps cfg) = Inl err'
          | Inr st3' \<Rightarrow> (\<exists>st3. bind_err (main_show_status cfg e st) (main_write_pps cfg) = Inr st3
                            \<and> got_stereo st3' = got_stereo st3))"
  using assms
  by (auto simp: bind_err_def main_show_status_def main_write_pps_def Let_def
      split: sum.splits if_splits)

lemma main_loop_course:
  assumes "stat_rate cfg' = stat_rate cfg" "modtype cfg' = modtype cfg"
    "quietmode cfg' = quietmode cfg" "ppsfile cfg' = ppsfile cfg"
    and "map stop_flag es' = map stop_flag es" "map pulled es' = map pulled es"
    "map fm_stereo_detected es' = map fm_stereo_detected es"
    and "got_stereo st' = got_stereo st" "decoded st' = decoded st" "block st' = block st"
  shows "fst (main_loop cfg' es' st') = fst (main_loop cfg es st)
       \<and> decoded (snd (main_loop cfg' es' st')) = decoded (snd (main_loop cfg es st))"
  using assms(5-)
proof (induction es' arbitrary: es st st')
  case Nil
  then show ?case by simp
next
  case (Cons e' es')
  then obtain e es0 where es: "es = e # es0" by (cases es) auto
  with Cons.prems have h: "stop_flag e' = stop_flag e" "pulled e' = pulled e"
    "fm_stereo_detected e' = fm_stereo_detected e"
    "map stop_flag es' = map stop_flag es0" "map pulled es' = map pulled es0"
    "map fm_stereo_detected es' = map fm_stereo_detected es0"
    by simp_all
  show ?case
  proof (cases "stop_flag e")
    case True
    then show ?thesis using h Cons.prems by (simp add: es)
  next
    case False
    let ?st1 = "main_check_inbuf cfg e st"
    let ?st1' = "main_check_inbuf cfg' e' st'"
    let ?st2 = "?st1\<lparr> decoded := decoded ?st1 @ [pulled e] \<rparr>"
    let ?st2' = "?st1'\<lparr> decoded := decoded ?st1' @ [pulled e'] \<rparr>"
    show ?thesis
    proof (cases "pulled e = []")
      case True
      then show ?thesis using False h Cons.prems by (simp add: es Let_def)
    next
      case ne: False
      have g: "got_stereo ?st2' = got_stereo ?st2" using Cons.prems by simp
      have d: "decoded ?st2' = decoded ?st2" using Cons.prems h by simp
      have b: "block ?st2' = block ?st2" using Cons.prems by simp
      note t = main_turn_course [OF assms(1-4) h(3) g]
      show ?thesis
      proof (cases "bind_err (main_show_status cfg' e' ?st2') (main_write_pps cfg')")
        case (Inl err')
        with t have "bind_err (main_show_status cfg e ?st2) (main_write_pps cfg) = Inl err'"
          by simp
        then show ?thesis using Inl False ne h d by (simp add: es Let_def)
      next
        case (Inr st3')
        with t obtain st3 where r: "bind_err (main_show_status cfg e ?st2) (main_write_pps cfg) = Inr st3"
          and g3: "got_stereo st3' = got_stereo st3"
          by auto
        let ?st4 = "st3\<lparr> block := (block st3 + 1) mod 2 ^ 32 \<rparr>"
        let ?st4' = "st3'\<lparr> block := (block st3' + 1) mod 2 ^ 32 \<rparr>"
        have l: "main_loop cfg (e # es0) st = main_loop cfg es0 ?st4"
          using False ne r by (simp add: Let_def)
        have l': "main_loop cfg' (e' # es') st' = main_loop cfg' es' ?st4'"
          using False ne h Inr by (simp add: Let_def)
        have "got_stereo ?st4' = got_stereo ?st4" using g3 by simp
        moreover have "decoded ?st4' = decoded ?st4"
          using main_turn_frame(3) [OF r] main_turn_frame(3) [OF Inr] d by simp
        moreover have "block ?st4' = block ?st4"
          using main_turn_frame(4) [OF r] main_turn_frame(4) [OF Inr] b by simp
        ultimately have "fst (main_loop cfg' es' ?st4') = fst (main_loop cfg es0 ?st4)
            \<and> decoded (snd (main_loop cfg' es' ?st4')) = decoded (snd (main_loop cfg es0 ?st4))"
          by (intro Cons.IH h)
        then show ?thesis by (simp only: es l l')
      qed
    qed
  qed
qed

lemma main_loop_decoded:
  assumes "fst (main_loop cfg es st) = None"
  shows "decoded (snd (main_loop cfg es st)) = decoded st @ map pulled (live_inputs es)"
  using assms
proof (induction es arbitrary: st)
  case Nil
  then show ?case by (simp add: live_inputs_def)
next
  case (Cons e es)
  show ?case
  proof (cases "\<not> stop_flag e \<and> pulled e \<noteq> []")
    case False
    then show ?thesis by (auto simp: Let_def live_inputs_def)
  next
    case True
    let ?st1 = "main_check_inbuf cfg e st"
    let ?st2 = "?st1\<lparr> decoded := decoded ?st1 @ [pulled e] \<rparr>"
    show ?thesis
    proof (cases "bind_err (main_show_status cfg e ?st2) (main_write_pps cfg)")
      case (Inl err)
      then have "fst (main_loop cfg (e # es) st) = Some err"
        using True by (simp add: Let_def)
      with Cons.prems show ?thesis by simp
    next
      case (Inr st3)
      let ?st4 = "st3\<lparr> block := (block st3 + 1) mod 2 ^ 32 \<rparr>"
      have l: "main_loop cfg (e # es) st = main_loop cfg es ?st4"
        using True Inr by (simp add: Let_def)
      with Cons.prems have "fst (main_loop cfg es ?st4) = None" by simp
      then have "decoded (snd (main_loop cfg es ?st4)) = decoded ?st4 @ map pulled (live_inputs es)"
        by (rule Cons.IH)
      moreover have "decoded ?st4 = decoded st @ [pulled e]"
        using main_turn_frame(3) [OF Inr] by simp
      ultimately show ?thesis unfolding l using True by (simp add: live_inputs_def)
    qed
  qed
qed

lemma main_turn_no_division:
  assumes "quietmode cfg \<and> \<not> ppsfile cfg \<or> stat_rate cfg \<noteq> 0 \<and> (stat_rate cfg * 10) mod 2 ^ 32 \<noteq> 0"
  shows "\<exists>st'. bind_err (main_show_status cfg e st) (main_write_pps cfg) = Inr st'"
  using assms
  by (auto simp: bind_err_def main_show_status_def main_write_pps_def Let_def)

lemma main_loop_no_division:
  assumes "quietmode cfg \<and> \<not> ppsfile cfg \<or> stat_rate cfg \<noteq> 0 \<and> (stat_rate cfg * 10) mod 2 ^ 32 \<noteq> 0"
  shows "fst (main_loop cfg es st) = None"
proof (induction es arbitrary: st)
  case Nil
  then show ?case by simp
next
  case (Cons e es)
  let ?st1 = "main_check_inbuf cfg e st"
  let ?st2 = "?st1\<lparr> decoded := decoded ?st1 @ [pulled e] \<rparr>"
  from main_turn_no_division [OF assms, of e ?st2]
  obtain st3 where "bind_err (main_show_status cfg e ?st2) (main_write_pps cfg) = Inr st3"
    by blast
  then show ?case using Cons.IH by (simp add: Let_def)
qed

lemma growing_queue_warning:
  "stderr_log (snd (main_loop fm_config_example growing_queue_example main_loop_init))
     = [inbuf_warning]"
  "stderr_log (snd (main_loop fm_config_example (map without_queue growing_queue_example)
                      main_loop_init)) = []"
  by (simp_all add: fm_config_example_def growing_queue_example_def main_loop_init_def
      without_queue_def main_check_inbuf_def main_show_status_def main_write_pps_def
      bind_err_def Let_def)

text \<open>
  Claim C9. Along any sequence of turns of the main loop the warning about the growing
  input buffer is written at most once, also when the loop ends abnormally. Writing it
  does not end the processing: the way the loop ends and the blocks it decodes are those
  of any run on the same blocks, flags and stereo reports, whatever the lengths of the
  queue and the IF rate are, so also of a run that never warns. A loop that does not end
  by a division by zero decodes every block pulled before the stop flag or the end of the
  stream, and no division by zero occurs when the statistics are off and no PPS file is
  open, or when neither \<open>stat_rate\<close> nor the 32-bit product \<open>stat_rate * 10\<close> is zero.
\<close>

theorem inbuf_warning_once:
  "count_list (stderr_log (snd (main_loop cfg es main_loop_init))) inbuf_warning \<le> 1
   \<and> (\<forall>cfg' es'. without_ifrate cfg' = without_ifrate cfg
          \<and> map without_queue es' = map without_queue es
        \<longrightarrow> fst (main_loop cfg' es' main_loop_init) = fst (main_loop cfg es main_loop_init)
          \<and> decoded (snd (main_loop cfg' es' main_loop_init))
              = decoded (snd (main_loop cfg es main_loop_init)))
   \<and> (fst (main_loop cfg es main_loop_init) = None
        \<longrightarrow> decoded (snd (main_loop cfg es main_loop_init)) = map pulled (live_inputs es))
   \<and> (quietmode cfg \<and> \<not> ppsfile cfg
          \<or> stat_rate cfg \<noteq> 0 \<and> (stat_rate cfg * 10) mod 2 ^ 32 \<noteq> 0
        \<longrightarrow> fst (main_loop cfg es main_loop_init) = None)"
proof -
  have a: "count_list (stderr_log (snd (main_loop cfg es main_loop_init))) inbuf_warning \<le> 1"
    using main_loop_warnings [of cfg es main_loop_init] by (simp add: main_loop_init_def)
  have b: "fst (main_loop cfg' es' main_loop_init) = fst (main_loop cfg es main_loop_init)
          \<and> decoded (snd (main_loop cfg' es' main_loop_init))
              = decoded (snd (main_loop cfg es main_loop_init))"
    if c: "without_ifrate cfg' = without_ifrate cfg"
      and e: "map without_queue es' = map without_queue es"
    for cfg' :: main_loop_config and es' :: "loop_input list"
  proof -
    have c1: "stat_rate cfg' = stat_rate cfg"
      using arg_cong [OF c, of stat_rate] by (simp add: without_ifrate_def)
    have c2: "modtype cfg' = modtype cfg"
      using arg_cong [OF c, of modtype] by (simp add: without_ifrate_def)
    have c3: "quietmode cfg' = quietmode cfg"
      using arg_cong [OF c, of quietmode] by (simp add: without_ifrate_def)
    have c4: "ppsfile cfg' = ppsfile cfg"
      using arg_cong [OF c, of ppsfile] by (simp add: without_ifrate_def)
    have e1: "map stop_flag es' = map stop_flag es"
      using arg_cong [OF e, of "map stop_flag"] by (simp add: without_queue_def comp_def)
    have e2: "map pulled es' = map pulled es"
      using arg_cong [OF e, of "map pulled"] by (simp add: without_queue_def comp_def)
    have e3: "map fm_stereo_detected es' = map fm_stereo_detected es"
      using arg_cong [OF e, of "map fm_stereo_detected"] by (simp add: without_queue_def comp_def)
    show ?thesis
      by (rule main_loop_course [OF c1 c2 c3 c4 e1 e2 e3]) simp_all
  qed
  have d: "decoded (snd (main_loop cfg es main_loop_init)) = map pulled (live_inputs es)"
    if "fst (main_loop cfg es main_loop_init) = None"
    using main_loop_decoded [OF that] by (simp add: main_loop_init_def)
  have f: "fst (main_loop cfg es main_loop_init) = None"
    if "quietmode cfg \<and> \<not> ppsfile cfg
          \<or> stat_rate cfg \<noteq> 0 \<and> (stat_rate cfg * 10) mod 2 ^ 32 \<noteq> 0"
    using that by (rule main_loop_no_division)
  from a b d f show ?thesis by blast
qed

theorem inbuf_warning_once_witness:
  "stderr_log (snd (main_loop fm_config_example growing_queue_example main_loop_init))
     = [inbuf_warning]
   \<and> stderr_log (snd (main_loop fm_config_example (map without_queue growing_queue_example)
                          main_loop_init)) = []
   \<and> fst (main_loop fm_config_example growing_queue_example main_loop_init) = None
   \<and> decoded (snd (main_loop fm_config_example growing_queue_example main_loop_init))
       = [[1], [2], [3]]
   \<and> decoded (snd (main_loop fm_config_example (map without_queue growing_queue_example)
                        main_loop_init)) = [[1], [2], [3]]"
proof -
  note t = inbuf_warning_once [of fm_config_example growing_queue_example]
  have c: "quietmode fm_config_example \<and> \<not> ppsfile fm_config_example
          \<or> stat_rate fm_config_example \<noteq> 0 \<and> (stat_rate fm_config_example * 10) mod 2 ^ 32 \<noteq> 0"
    by (simp add: fm_config_example_def)
  from t c have n: "fst (main_loop fm_config_example growing_queue_example main_loop_init) = None"
    by blast
  with t have "decoded (snd (main_loop fm_config_example growing_queue_example main_loop_init))
       = map pulled (live_inputs growing_queue_example)"
    by blast
  then have d: "decoded (snd (main_loop fm_config_example growing_queue_example main_loop_init))
       = [[1], [2], [3]]"
    by (simp add: live_inputs_def growing_queue_example_def)
  have "without_ifrate fm_config_example = without_ifrate fm_config_example
     \<and> map without_queue (map without_queue growing_queue_example)
         = map without_queue growing_queue_example"
    by (simp add: without_queue_def)
  with t have "decoded (snd (main_loop fm_config_example (map without_queue growing_queue_example)
                        main_loop_init))
       = decoded (snd (main_loop fm_config_example growing_queue_example main_loop_init))"
    by blast
  with d n growing_queue_warning show ?thesis by simp
qed

text \<open>
  The abnormal end. When \<open>stat_rate\<close> is zero the loop ends at the first evaluation of
  \<^verbatim>\<open>block % stat_rate\<close>: for FM in the second turn, since the change of the stereo
  state hides the division in the first one, and for NBFM in the first turn. The blocks
  that follow are not decoded.
\<close>

lemma main_loop_division_by_zero:
  "fst (main_loop (fm_config_example\<lparr> stat_rate := 0 \<rparr>) growing_queue_example main_loop_init)
     = Some DivisionByZero"
  "decoded (snd (main_loop (fm_config_example\<lparr> stat_rate := 0 \<rparr>) growing_queue_example
                   main_loop_init)) = [[1], [2]]"
  "fst (main_loop (fm_config_example\<lparr> stat_rate := 0, modtype := NBFM \<rparr>) growing_queue_example
          main_loop_init) = Some DivisionByZero"
  "decoded (snd (main_loop (fm_config_example\<lparr> stat_rate := 0, modtype := NBFM \<rparr>)
                   growing_queue_example main_loop_init)) = [[1]]"
  by (simp_all add: fm_config_example_def growing_queue_example_def main_loop_init_def
      main_check_inbuf_def main_show_status_def main_write_pps_def bind_err_def Let_def)

end
